theory Spec2Isabelle
  imports Main "HOL-Library.Word" "HOL-Library.List_Lexorder"
begin

section \<open>JavaScript strings and values\<close>

text \<open>
  A JavaScript string is a sequence of UTF-16 code units. The regular expressions of
  the library carry no \<open>u\<close> flag, so they work on code units, and so does this model.
  \<open>js\<close> turns an ASCII literal of the source into its code units.
\<close>

type_synonym jschar = "16 word"
type_synonym jsstring = "jschar list"
type_synonym bytes = "8 word list"

definition js :: "string \<Rightarrow> jsstring" where
  "js s = map of_char s"

text \<open>
  The values a variable can hold at run time, as far as the library inspects them
  (\<open>typeof\<close>, truthiness, property access). Numbers are restricted to integers.
  An object is the list of its own properties in insertion order.
\<close>

datatype jsval =
    Undefined
  | Null
  | Bool bool
  | Num int
  | Str jsstring
  | Arr "jsval list"
  | Obj "(jsstring \<times> jsval) list"

text \<open>\<open>typeof v\<close>.\<close>

fun typeof :: "jsval \<Rightarrow> jsstring" where
  "typeof Undefined = js ''undefined''"
| "typeof Null = js ''object''"
| "typeof (Bool b) = js ''boolean''"
| "typeof (Num n) = js ''number''"
| "typeof (Str s) = js ''string''"
| "typeof (Arr xs) = js ''object''"
| "typeof (Obj kvs) = js ''object''"

text \<open>\<open>!v\<close> is \<open>\<not> truthy v\<close>.\<close>

fun truthy :: "jsval \<Rightarrow> bool" where
  "truthy Undefined = False"
| "truthy Null = False"
| "truthy (Bool b) = b"
| "truthy (Num n) = (n \<noteq> 0)"
| "truthy (Str s) = (s \<noteq> [])"
| "truthy (Arr xs) = True"
| "truthy (Obj kvs) = True"

section \<open>Errors\<close>

text \<open>
  Every \<open>throw\<close> of the library is a value of \<open>error\<close>. The five error classes of the
  library carry their message; \<open>Error\<close> is a plain \<open>Error\<close> thrown by the library itself,
  \<open>TypeError\<close> is what the engine throws on a property read from \<open>null\<close> or
  \<open>undefined\<close>, and \<open>Thrown m\<close> is whatever a call into a dependency threw, with its
  \<open>message\<close> property when it has one.
\<close>

datatype error =
    InvalidRegistrationId jsstring
  | InvalidJws jsstring
  | InvalidUrn jsstring
  | InvalidDap jsstring
  | InvalidDapRegistration jsstring
  | Error jsstring
  | TypeError
  | Thrown "jsstring option"

text \<open>The constructors: \<open>super(message ?? '<default>')\<close>.\<close>

definition InvalidRegistrationId_new :: "jsstring option \<Rightarrow> error" where
  "InvalidRegistrationId_new message =
     InvalidRegistrationId (case message of None \<Rightarrow> js ''Invalid Registration ID'' | Some m \<Rightarrow> m)"

definition InvalidJws_new :: "jsstring option \<Rightarrow> error" where
  "InvalidJws_new message =
     InvalidJws (case message of None \<Rightarrow> js ''Invalid JWS'' | Some m \<Rightarrow> m)"

definition InvalidUrn_new :: "jsstring option \<Rightarrow> error" where
  "InvalidUrn_new message =
     InvalidUrn (case message of None \<Rightarrow> js ''Invalid URN'' | Some m \<Rightarrow> m)"

definition InvalidDap_new :: "jsstring option \<Rightarrow> error" where
  "InvalidDap_new message =
     InvalidDap (case message of None \<Rightarrow> js ''Invalid DAP'' | Some m \<Rightarrow> m)"

definition InvalidDapRegistration_new :: "jsstring option \<Rightarrow> error" where
  "InvalidDapRegistration_new message =
     InvalidDapRegistration
       (case message of None \<Rightarrow> js ''Invalid DAP Registration'' | Some m \<Rightarrow> m)"

text \<open>
  \<open>error?.message\<close> in a \<open>catch\<close> block. The message of a \<open>TypeError\<close> is the
  engine's own and is left open: no \<open>try\<close> block of the library contains a property
  read that can throw one.
\<close>

fun error_message :: "error \<Rightarrow> jsstring option" where
  "error_message (InvalidRegistrationId m) = Some m"
| "error_message (InvalidJws m) = Some m"
| "error_message (InvalidUrn m) = Some m"
| "error_message (InvalidDap m) = Some m"
| "error_message (InvalidDapRegistration m) = Some m"
| "error_message (Error m) = Some m"
| "error_message (Thrown m) = m"

section \<open>Regular expressions\<close>

text \<open>
  The two patterns of the library, \<open>^urn:([^:]+):(.+)$\<close> and \<open>^@([^@/]+)/([^@/]+)$\<close>,
  are anchored sequences of literals and capturing groups \<open>(c+)\<close> over a character
  class \<open>c\<close>. Without the \<open>s\<close> flag \<open>.\<close> matches every code unit but the four line
  terminators; a negated class \<open>[^...]\<close> matches every code unit not listed, line
  terminators included.
\<close>

datatype cls = AnyChar | NoneOf jsstring

definition line_terminators :: jsstring where
  "line_terminators = [0x000A, 0x000D, 0x2028, 0x2029]"

fun cls_matches :: "cls \<Rightarrow> jschar \<Rightarrow> bool" where
  "cls_matches AnyChar c = (c \<notin> set line_terminators)"
| "cls_matches (NoneOf cs) c = (c \<notin> set cs)"

datatype node = Lit jsstring | Group cls

text \<open>
  Backtracking as the engine does it: a greedy \<open>c+\<close> first takes the longest run of
  code units of the class, then gives them back one at a time, down to one, until the
  rest of the pattern matches.
\<close>

fun longest_first :: "(nat \<Rightarrow> 'a option) \<Rightarrow> nat \<Rightarrow> 'a option" where
  "longest_first f 0 = None"
| "longest_first f (Suc n) =
     (case f (Suc n) of Some r \<Rightarrow> Some r | None \<Rightarrow> longest_first f n)"

text \<open>
  \<open>exec ns s\<close> matches \<open>^ns$\<close> against the whole of \<open>s\<close> and returns the captured groups,
  or \<open>None\<close> for \<open>null\<close>.
\<close>

primrec exec :: "node list \<Rightarrow> jsstring \<Rightarrow> jsstring list option" where
  "exec [] s = (if s = [] then Some [] else None)"
| "exec (n # ns) s =
     (case n of
        Lit l \<Rightarrow> if take (length l) s = l then exec ns (drop (length l) s) else None
      | Group c \<Rightarrow>
          longest_first (\<lambda>k. map_option ((#) (take k s)) (exec ns (drop k s)))
            (length (takeWhile (cls_matches c) s)))"

section \<open>Urn\<close>

record Urn =
  nid :: jsstring
  nss :: jsstring
  urn :: jsstring

definition Urn_PREFIX :: jsstring where
  "Urn_PREFIX = js ''urn:''"

definition Urn_SEPARATOR :: jsstring where
  "Urn_SEPARATOR = js '':''"

definition URN_PATTERN :: "node list" where
  "URN_PATTERN = [Lit Urn_PREFIX, Group (NoneOf Urn_SEPARATOR), Lit Urn_SEPARATOR, Group AnyChar]"

definition Urn_new :: "jsstring \<Rightarrow> jsstring \<Rightarrow> Urn" where
  "Urn_new nid' nss' = \<lparr>nid = nid', nss = nss', urn = Urn_PREFIX @ nid' @ js '':'' @ nss'\<rparr>"

definition Urn_toString :: "Urn \<Rightarrow> jsstring" where
  "Urn_toString u = urn u"

definition Urn_parse :: "jsstring \<Rightarrow> error + Urn" where
  "Urn_parse s =
     (case exec URN_PATTERN s of
        None \<Rightarrow> Inl (InvalidUrn_new None)
      | Some groups \<Rightarrow>
          (case groups of
             [nid', nss'] \<Rightarrow> Inr (Urn_new nid' nss')
           | _ \<Rightarrow> Inl (InvalidUrn_new None)))"

section \<open>Dap\<close>

record Dap =
  handle :: jsstring
  domain :: jsstring

definition Dap_PREFIX :: jsstring where
  "Dap_PREFIX = js ''@''"

definition Dap_SEPARATOR :: jsstring where
  "Dap_SEPARATOR = js ''/''"

definition DAP_REGEX :: "node list" where
  "DAP_REGEX =
     [Lit Dap_PREFIX, Group (NoneOf (Dap_PREFIX @ Dap_SEPARATOR)),
      Lit Dap_SEPARATOR, Group (NoneOf (Dap_PREFIX @ Dap_SEPARATOR))]"

definition Dap_new :: "jsstring \<Rightarrow> jsstring \<Rightarrow> Dap" where
  "Dap_new handle' domain' = \<lparr>handle = handle', domain = domain'\<rparr>"

definition Dap_toString :: "Dap \<Rightarrow> jsstring" where
  "Dap_toString d = Dap_PREFIX @ handle d @ Dap_SEPARATOR @ domain d"

definition Dap_parse :: "jsstring \<Rightarrow> error + Dap" where
  "Dap_parse s =
     (case exec DAP_REGEX s of
        None \<Rightarrow> Inl (InvalidDap_new None)
      | Some groups \<Rightarrow>
          (case groups of
             [handle', domain'] \<Rightarrow> Inr (Dap_new handle' domain')
           | _ \<Rightarrow> Inl (InvalidDap_new None)))"

section \<open>String helpers of the engine\<close>

text \<open>\<open>s.split(c)\<close> for a one-character separator: never empty, \<open>''.split('.')\<close> is \<open>['']\<close>.\<close>

fun split :: "jsstring \<Rightarrow> jschar \<Rightarrow> jsstring list" where
  "split [] c = [[]]"
| "split (x # xs) c =
     (if x = c then [] # split xs c
      else (case split xs c of [] \<Rightarrow> [[x]] | p # ps \<Rightarrow> (x # p) # ps))"

text \<open>
  \<open>parseInt(s, radix)\<close>: leading white space is dropped, then a sign, then (radix 16
  only) a \<open>0x\<close> or \<open>0X\<close> prefix; the longest run of digits of the radix is the number,
  and no digit at all gives \<open>NaN\<close>, here \<open>None\<close>. The result is a double, which holds
  every integer below \<open>2^53\<close> exactly.
\<close>

definition StrWhiteSpaceChar :: "jschar \<Rightarrow> bool" where
  "StrWhiteSpaceChar c =
     (c \<in> set [0x0009, 0x000B, 0x000C, 0x0020, 0x00A0, 0xFEFF, 0x1680, 0x2000, 0x2001,
               0x2002, 0x2003, 0x2004, 0x2005, 0x2006, 0x2007, 0x2008, 0x2009, 0x200A,
               0x202F, 0x205F, 0x3000, 0x000A, 0x000D, 0x2028, 0x2029])"

definition digit_value :: "jschar \<Rightarrow> nat option" where
  "digit_value c =
     (if 0x30 \<le> c \<and> c \<le> 0x39 then Some (unat c - 0x30)
      else if 0x61 \<le> c \<and> c \<le> 0x7A then Some (unat c - 0x61 + 10)
      else if 0x41 \<le> c \<and> c \<le> 0x5A then Some (unat c - 0x41 + 10)
      else None)"

definition is_digit :: "nat \<Rightarrow> jschar \<Rightarrow> bool" where
  "is_digit radix c = (case digit_value c of None \<Rightarrow> False | Some d \<Rightarrow> d < radix)"

definition digits_value :: "nat \<Rightarrow> jsstring \<Rightarrow> nat" where
  "digits_value radix ds = foldl (\<lambda>acc c. radix * acc + the (digit_value c)) 0 ds"

definition parseInt :: "jsstring \<Rightarrow> nat \<Rightarrow> int option" where
  "parseInt input radix =
     (let s = dropWhile StrWhiteSpaceChar input;
          sign = (if take 1 s = js ''-'' then - 1 else 1 :: int);
          s = (if take 1 s = js ''+'' \<or> take 1 s = js ''-'' then drop 1 s else s);
          s = (if radix = 16 \<and> (take 2 s = js ''0x'' \<or> take 2 s = js ''0X'')
               then drop 2 s else s);
          z = takeWhile (is_digit radix) s
      in if z = [] then None else Some (sign * int (digits_value radix z)))"

text \<open>
  A property read \<open>v.k\<close>. It throws on \<open>null\<close> and \<open>undefined\<close>; an object gives its own
  property or \<open>undefined\<close>; the names the library reads (\<open>alg\<close>, \<open>kid\<close>, \<open>id\<close>,
  \<open>handle\<close>, \<open>did\<close>, \<open>domain\<close>, \<open>signature\<close>) are no property of a boolean, a number,
  a string or an array.
\<close>

fun get_prop :: "jsval \<Rightarrow> jsstring \<Rightarrow> error + jsval" where
  "get_prop Undefined k = Inl TypeError"
| "get_prop Null k = Inl TypeError"
| "get_prop (Obj kvs) k = Inr (case map_of kvs k of None \<Rightarrow> Undefined | Some v \<Rightarrow> v)"
| "get_prop (Bool b) k = Inr Undefined"
| "get_prop (Num n) k = Inr Undefined"
| "get_prop (Str s) k = Inr Undefined"
| "get_prop (Arr xs) k = Inr Undefined"

section \<open>The dependencies\<close>

text \<open>
  The packages the library imports (\<open>typeid-js\<close>, \<open>@web5/common\<close>, \<open>@web5/crypto\<close>,
  \<open>@web5/dids\<close>) and the engine's \<open>JSON\<close> are parameters of the model: a record of
  functions, one per call the library makes. A call that can throw returns
  \<open>thrown + 'a\<close>, the thrown value given by its \<open>message\<close> property. \<open>'tid\<close> is the type
  of a \<open>TypeID\<close> and \<open>'jwk\<close> of whatever a verification method holds as \<open>publicKeyJwk\<close>.
  \<open>typeid prefix now entropy\<close> is \<open>typeid(prefix)\<close> called when the clock reads \<open>now\<close>
  milliseconds, with the random bits it draws.
\<close>

type_synonym thrown = "jsstring option"

text \<open>
  The \<open>contentStream\<close> of a dereferencing result: \<open>isDidVerificationMethod\<close> holds of
  \<open>VerificationMethod k\<close> only, whose \<open>publicKeyJwk\<close> property is \<open>k\<close>.
\<close>

datatype 'jwk contentStream = NotVerificationMethod | VerificationMethod 'jwk

record ('tid, 'jwk) library =
  typeid :: "jsstring \<Rightarrow> nat \<Rightarrow> nat \<Rightarrow> 'tid"
  TypeID_fromString :: "jsval \<Rightarrow> thrown + 'tid"
  TypeID_getType :: "'tid \<Rightarrow> jsstring"
  TypeID_toString :: "'tid \<Rightarrow> jsstring"
  TypeID_toUUID :: "'tid \<Rightarrow> jsstring"
  canonicalize :: "jsval \<Rightarrow> thrown + jsstring"
  Sha256_digest :: "bytes \<Rightarrow> bytes"
  string_toUint8Array :: "jsstring \<Rightarrow> bytes"
  uint8Array_toBase64Url :: "bytes \<Rightarrow> jsstring"
  object_toBase64Url :: "jsval \<Rightarrow> jsstring"
  base64Url_toObject :: "jsstring \<Rightarrow> thrown + jsval"
  base64Url_toUint8Array :: "jsstring \<Rightarrow> thrown + bytes"
  DidResolver_dereference :: "jsstring \<Rightarrow> thrown + 'jwk contentStream"
  isPublicJwk :: "'jwk \<Rightarrow> bool"
  keyManager_verify :: "'jwk \<Rightarrow> bytes \<Rightarrow> bytes \<Rightarrow> thrown + bool"
  JSON_parse :: "jsstring \<Rightarrow> thrown + jsval"
  JSON_stringify :: "jsval \<Rightarrow> jsstring"

text \<open>A signer (\<open>did.getSigner()\<close>) and the \<open>BearerDid\<close> that gives it.\<close>

record Signer =
  algorithm :: jsstring
  keyId :: jsstring
  sign :: "bytes \<Rightarrow> thrown + bytes"

record BearerDid =
  uri :: jsstring
  getSigner :: "thrown + Signer"

section \<open>RegistrationId\<close>

datatype 'tid RegistrationId = RegistrationId (value_of: 'tid)

definition RegistrationId_create :: "('tid, 'jwk) library \<Rightarrow> nat \<Rightarrow> nat \<Rightarrow> 'tid RegistrationId" where
  "RegistrationId_create lib now entropy = RegistrationId (typeid lib (js ''reg'') now entropy)"

definition extractTimestamp :: "('tid, 'jwk) library \<Rightarrow> 'tid RegistrationId \<Rightarrow> int option" where
  "extractTimestamp lib r =
     (let timestampHex = remove1 (0x2D) (take 13 (TypeID_toUUID lib (value_of r)));
          timestampMilliseconds = parseInt timestampHex 16
      in timestampMilliseconds)"

text \<open>A \<open>Date\<close> is its time value; \<open>None\<close> is the invalid date \<open>new Date(NaN)\<close>.\<close>

datatype Date = Date "int option"

definition extractDate :: "('tid, 'jwk) library \<Rightarrow> 'tid RegistrationId \<Rightarrow> Date" where
  "extractDate lib r = (let timestamp = extractTimestamp lib r in Date timestamp)"

definition RegistrationId_toString :: "('tid, 'jwk) library \<Rightarrow> 'tid RegistrationId \<Rightarrow> jsstring" where
  "RegistrationId_toString lib r = TypeID_toString lib (value_of r)"

text \<open>
  \<open>parse\<close>: the \<open>throw\<close> of the wrong prefix is inside the \<open>try\<close> block, so the \<open>catch\<close>
  takes it as it takes what \<open>TypeID.fromString\<close> throws, and wraps the message again.
\<close>

definition RegistrationId_parse ::
  "('tid, 'jwk) library \<Rightarrow> jsval \<Rightarrow> error + 'tid RegistrationId" where
  \<open>RegistrationId_parse lib id' =
     (case (case TypeID_fromString lib id' of
              Inl t \<Rightarrow> Inl (Thrown t)
            | Inr parsed \<Rightarrow>
                if TypeID_getType lib parsed \<noteq> js ''reg''
                then Inl (InvalidRegistrationId_new
                            (Some (js ''Registration ID prefix must be "reg"'')))
                else Inr (RegistrationId parsed)) of
        Inl error \<Rightarrow> Inl (InvalidRegistrationId_new (error_message error))
      | Inr r \<Rightarrow> Inr r)\<close>

section \<open>Sequencing\<close>

text \<open>
  Statements run in order and the first \<open>throw\<close> ends the call: \<open>bind m f\<close> runs \<open>f\<close> on
  the result of \<open>m\<close> unless \<open>m\<close> threw, and \<open>call m f\<close> does so for a call into a
  dependency, whose thrown value passes through unchanged as \<open>Thrown\<close>.
\<close>

definition bind :: "error + 'a \<Rightarrow> ('a \<Rightarrow> error + 'b) \<Rightarrow> error + 'b" where
  "bind m f = (case m of Inl e \<Rightarrow> Inl e | Inr x \<Rightarrow> f x)"

definition call :: "thrown + 'a \<Rightarrow> ('a \<Rightarrow> error + 'b) \<Rightarrow> error + 'b" where
  "call m f = (case m of Inl t \<Rightarrow> Inl (Thrown t) | Inr x \<Rightarrow> f x)"

section \<open>Crypto\<close>

definition Crypto_digest :: "('tid, 'jwk) library \<Rightarrow> jsval \<Rightarrow> error + bytes" where
  "Crypto_digest lib payload =
     call (canonicalize lib payload) (\<lambda>canonicalized.
     let canonicalizedBytes = string_toUint8Array lib canonicalized;
         digest = Sha256_digest lib canonicalizedBytes
     in Inr digest)"

definition Crypto_sign ::
  "('tid, 'jwk) library \<Rightarrow> BearerDid \<Rightarrow> bytes \<Rightarrow> bool \<Rightarrow> error + jsstring" where
  "Crypto_sign lib did payload detached =
     call (getSigner did) (\<lambda>signer.
     let jwsHeader = Obj [(js ''alg'', Str (algorithm signer)), (js ''kid'', Str (keyId signer))];
         jwsHeaderBase64Url = object_toBase64Url lib jwsHeader;
         payloadBase64Url = uint8Array_toBase64Url lib payload;
         toSign = jwsHeaderBase64Url @ js ''.'' @ payloadBase64Url;
         toSignBytes = string_toUint8Array lib toSign
     in
     call (sign signer toSignBytes) (\<lambda>signatureBytes.
     let signatureBase64Url = uint8Array_toBase64Url lib signatureBytes
     in
     if detached
     then Inr (jwsHeaderBase64Url @ js ''..'' @ signatureBase64Url)
     else Inr (jwsHeaderBase64Url @ js ''.'' @ payloadBase64Url @ js ''.'' @ signatureBase64Url)))"

text \<open>
  \<open>verify\<close>. \<open>detachedPayload\<close> is \<open>None\<close> when the option is absent; a \<open>Uint8Array\<close>
  is an object and so truthy, also when it is empty. The destructuring of
  \<open>jws.split('.')\<close> with the test \<open>length !== 3\<close> is the match on a list of three; past
  the test of \<open>typeof jwsHeader.kid\<close> the key id is a string.
\<close>

definition Crypto_verify ::
  "('tid, 'jwk) library \<Rightarrow> jsval \<Rightarrow> bytes option \<Rightarrow> error + jsstring" where
  \<open>Crypto_verify lib jws detachedPayload =
     (case jws of
        Str jws' \<Rightarrow>
          (case split jws' 0x2E of
             [jwsHeaderBase64Url, payloadBase64Url0, signatureBase64Url] \<Rightarrow>
               (if detachedPayload \<noteq> None \<and> length payloadBase64Url0 \<noteq> 0
                then Inl (InvalidJws_new (Some (js
                  ''Signature verification failed: Expected detached JWS with empty payload'')))
                else
                let payloadBase64Url =
                      (case detachedPayload of
                         None \<Rightarrow> payloadBase64Url0
                       | Some dp \<Rightarrow> uint8Array_toBase64Url lib dp)
                in
                bind (case base64Url_toObject lib jwsHeaderBase64Url of
                        Inl t \<Rightarrow> Inl (InvalidJws_new (Some (js
                          ''Signature verification failed: Invalid JWS header'')))
                      | Inr obj \<Rightarrow> Inr obj) (\<lambda>jwsHeader.
                bind (get_prop jwsHeader (js ''alg'')) (\<lambda>alg.
                if \<not> truthy alg \<or> typeof alg \<noteq> js ''string''
                then Inl (InvalidJws_new (Some (js
                  ''Signature verification failed: Missing or invalid algorithm ("alg") in JWS header'')))
                else
                bind (get_prop jwsHeader (js ''kid'')) (\<lambda>kid.
                if \<not> truthy kid \<or> typeof kid \<noteq> js ''string''
                then Inl (InvalidJws_new (Some (js
                  ''Signature verification failed: Missing or invalid key ID ("kid") in JWS header'')))
                else
                bind (case kid of Str kid' \<Rightarrow> Inr kid' | _ \<Rightarrow> Inl TypeError) (\<lambda>kid'.
                call (DidResolver_dereference lib kid') (\<lambda>contentStream.
                bind (case contentStream of
                        NotVerificationMethod \<Rightarrow> Inl (InvalidJws_new (Some (js
                          ''Signature verification failed: Expected key id ("kid") in JWS header to dereference to a DID Document Verification Method'')))
                      | VerificationMethod k \<Rightarrow> Inr k) (\<lambda>publicKeyJwk.
                if \<not> isPublicJwk lib publicKeyJwk
                then Inl (Error (js
                  ''Signature verification failed: Expected kid in JWS header to dereference to a DID Document Verification Method with publicKeyJwk''))
                else
                let signedData = jwsHeaderBase64Url @ js ''.'' @ payloadBase64Url;
                    signedDataBytes = string_toUint8Array lib signedData
                in
                call (base64Url_toUint8Array lib signatureBase64Url) (\<lambda>signatureBytes.
                call (keyManager_verify lib publicKeyJwk signedDataBytes signatureBytes)
                  (\<lambda>isValidSignature.
                if \<not> isValidSignature
                then Inl (InvalidJws_new (Some (js
                  ''Signature verification failed: Integrity mismatch'')))
                else Inr (hd (split kid' 0x23)))))))))))
           | _ \<Rightarrow> Inl (InvalidJws_new (Some (js
               ''Signature verification failed: Expected Compact JWS with 3 parts''))))
      | _ \<Rightarrow> Inl (InvalidJws_new (Some (js
          ''Signature verification failed: Expected Compact JWS in string format''))))\<close>

section \<open>DapRegistration\<close>

text \<open>
  The fields are what the constructor was given: \<open>parse\<close> copies them from parsed JSON
  without a check, so they are values, not strings. \<open>reg_signature\<close> is \<open>Undefined\<close>
  on an unsigned registration.
\<close>

record 'tid DapRegistration =
  reg_id :: "'tid RegistrationId"
  reg_handle :: jsval
  reg_did :: jsval
  reg_domain :: jsval
  reg_signature :: jsval

definition DapRegistration_new ::
  "'tid RegistrationId \<Rightarrow> jsval \<Rightarrow> jsval \<Rightarrow> jsval \<Rightarrow> jsval \<Rightarrow> 'tid DapRegistration" where
  "DapRegistration_new id' handle' did' domain' signature' =
     \<lparr>reg_id = id', reg_handle = handle', reg_did = did', reg_domain = domain',
      reg_signature = signature'\<rparr>"

definition computeDigest :: "('tid, 'jwk) library \<Rightarrow> 'tid DapRegistration \<Rightarrow> error + bytes" where
  "computeDigest lib r =
     (let payload = Obj [(js ''id'', Str (RegistrationId_toString lib (reg_id r))),
                         (js ''handle'', reg_handle r),
                         (js ''did'', reg_did r),
                         (js ''domain'', reg_domain r)]
      in Crypto_digest lib payload)"

text \<open>\<open>validate\<close> is empty in the source (``To be implemented'').\<close>

definition validate :: "'tid DapRegistration \<Rightarrow> error + unit" where
  "validate r = Inr ()"

definition DapRegistration_create ::
  "('tid, 'jwk) library \<Rightarrow> nat \<Rightarrow> nat \<Rightarrow> jsval \<Rightarrow> jsval \<Rightarrow> jsval \<Rightarrow> error + 'tid DapRegistration" where
  "DapRegistration_create lib now entropy handle' did' domain' =
     (let id' = RegistrationId_create lib now entropy;
          registration = DapRegistration_new id' handle' did' domain' Undefined
      in bind (validate registration) (\<lambda>u. Inr registration))"

definition DapRegistration_verify ::
  "('tid, 'jwk) library \<Rightarrow> 'tid DapRegistration \<Rightarrow> error + jsstring" where
  "DapRegistration_verify lib r =
     (if reg_signature r = Undefined
      then Inl (InvalidDapRegistration_new (Some (js
        ''Invalid DAP Registration: Signature is missing'')))
      else
      bind (computeDigest lib r) (\<lambda>payload.
      bind (Crypto_verify lib (reg_signature r) (Some payload)) (\<lambda>signerDid.
      if reg_did r \<noteq> Str signerDid
      then Inl (InvalidDapRegistration_new (Some (js
        ''Invalid DAP Registration: Expected registration to be signed by the specified DID'')))
      else Inr signerDid)))"

definition DapRegistration_sign ::
  "('tid, 'jwk) library \<Rightarrow> 'tid DapRegistration \<Rightarrow> BearerDid \<Rightarrow> error + 'tid DapRegistration" where
  "DapRegistration_sign lib r did =
     bind (computeDigest lib r) (\<lambda>payload.
     bind (Crypto_sign lib did payload True) (\<lambda>jws.
     Inr (r\<lparr>reg_signature := Str jws\<rparr>)))"

definition toJSON :: "('tid, 'jwk) library \<Rightarrow> 'tid DapRegistration \<Rightarrow> jsval" where
  "toJSON lib r =
     Obj [(js ''id'', Str (RegistrationId_toString lib (reg_id r))),
          (js ''handle'', reg_handle r),
          (js ''did'', reg_did r),
          (js ''domain'', reg_domain r),
          (js ''signature'', reg_signature r)]"

definition rawToRegistrationRequest :: "('tid, 'jwk) library \<Rightarrow> jsval \<Rightarrow> error + jsval" where
  "rawToRegistrationRequest lib rawRequest =
     (case rawRequest of
        Str raw \<Rightarrow>
          (case JSON_parse lib raw of
             Inl error \<Rightarrow>
               (let errorMessage = (case error of None \<Rightarrow> js ''Unknown error'' | Some m \<Rightarrow> m)
                in Inl (InvalidDapRegistration_new
                          (Some (js ''Failed to parse DAP registration: '' @ errorMessage))))
           | Inr v \<Rightarrow> Inr v)
      | _ \<Rightarrow> Inr rawRequest)"

text \<open>
  \<open>parse\<close>: the arguments of the constructor are evaluated left to right, so the read
  of \<open>id\<close> and \<open>RegistrationId.parse\<close> come before the other reads.
\<close>

definition DapRegistration_parse ::
  "('tid, 'jwk) library \<Rightarrow> jsval \<Rightarrow> error + 'tid DapRegistration" where
  "DapRegistration_parse lib rawRequest =
     bind (rawToRegistrationRequest lib rawRequest) (\<lambda>jsonRegistration.
     bind (get_prop jsonRegistration (js ''id'')) (\<lambda>id'.
     bind (RegistrationId_parse lib id') (\<lambda>rid.
     bind (get_prop jsonRegistration (js ''handle'')) (\<lambda>handle'.
     bind (get_prop jsonRegistration (js ''did'')) (\<lambda>did'.
     bind (get_prop jsonRegistration (js ''domain'')) (\<lambda>domain'.
     bind (get_prop jsonRegistration (js ''signature'')) (\<lambda>signature'.
     let registration = DapRegistration_new rid handle' did' domain' signature'
     in
     bind (DapRegistration_verify lib registration) (\<lambda>signerDid.
     Inr registration))))))))"

text \<open>\<open>JSON.stringify(registration)\<close>, which calls \<open>toJSON\<close>.\<close>

definition serialize :: "('tid, 'jwk) library \<Rightarrow> 'tid DapRegistration \<Rightarrow> jsstring" where
  "serialize lib r = JSON_stringify lib (toJSON lib r)"

section \<open>The grammar of a Dap, in the specification's words\<close>

text \<open>
  ``Exactly one \<open>@\<close> prefix, handle segment excluding \<open>@\<close> and \<open>/\<close>, exactly one \<open>/\<close>
  separator, domain segment excluding \<open>@\<close> and \<open>/\<close>, no trailing characters'', both
  segments non-empty: \<open>dap_grammar s h d\<close> says that \<open>s\<close> is such a string with handle
  \<open>h\<close> and domain \<open>d\<close>. It is what \<open>Dap_parse\<close>, which runs the regular expression, is
  compared with.
\<close>

definition dap_grammar :: "jsstring \<Rightarrow> jsstring \<Rightarrow> jsstring \<Rightarrow> bool" where
  "dap_grammar s h d =
     (s = js ''@'' @ h @ js ''/'' @ d \<and> h \<noteq> [] \<and> d \<noteq> [] \<and>
      set h \<inter> {0x40, 0x2F} = {} \<and> set d \<inter> {0x40, 0x2F} = {})"

section \<open>The text of a version 7 UUID\<close>

text \<open>
  Modelled from the spec: \<open>typeid\<close> and \<open>TypeID.toUUID\<close> belong to \<open>typeid-js\<close>, which is
  not under src/. The specification has the identifier embed ``the current wall-clock
  time in milliseconds since epoch in its most-significant bits'', 48 bits wide, and the
  source reads them from the first 13 characters of the UUID text: eight hexadecimal
  digits, a hyphen, four more. \<open>uuid_timestamp_text t\<close> is that text for the time \<open>t\<close>,
  \<open>hex w n\<close> the \<open>w\<close> lower-case hexadecimal digits of \<open>n\<close>.
\<close>

definition hex_digit :: "nat \<Rightarrow> jschar" where
  "hex_digit d = (if d < 10 then of_nat (0x30 + d) else of_nat (0x61 + (d - 10)))"

fun hex :: "nat \<Rightarrow> nat \<Rightarrow> jsstring" where
  "hex 0 n = []"
| "hex (Suc w) n = hex w (n div 16) @ [hex_digit (n mod 16)]"

definition uuid_timestamp_text :: "nat \<Rightarrow> jsstring" where
  "uuid_timestamp_text t = hex 8 (t div 2 ^ 16) @ js ''-'' @ hex 4 (t mod 2 ^ 16)"

text \<open>The difference of two numbers as \<open>-\<close> computes it, \<open>NaN\<close> when either is.\<close>

definition minus_number :: "int option \<Rightarrow> int option \<Rightarrow> int option" where
  "minus_number a b = (case a of None \<Rightarrow> None | Some x \<Rightarrow> (case b of None \<Rightarrow> None | Some y \<Rightarrow> Some (x - y)))"

section \<open>Canonical JSON\<close>

text \<open>
  Modelled from the spec: \<open>canonicalize\<close> belongs to \<open>@web5/crypto\<close>, which is not under
  src/. The specification asks for ``object keys sorted lexicographically at every
  nesting level, no insignificant whitespace, consistent number/string escaping'', with
  the order of a sequence preserved, and a failure when the payload is not
  serializable. Keys are compared by code units; \<open>undefined\<close> is what is not
  serializable.
\<close>

definition escape :: "jschar \<Rightarrow> jsstring" where
  "escape c =
     (if c = 0x22 then [0x5C, 0x22]
      else if c = 0x5C then [0x5C, 0x5C]
      else if c = 0x08 then [0x5C, 0x62]
      else if c = 0x0C then [0x5C, 0x66]
      else if c = 0x0A then [0x5C, 0x6E]
      else if c = 0x0D then [0x5C, 0x72]
      else if c = 0x09 then [0x5C, 0x74]
      else if c < 0x20 then [0x5C, 0x75] @ hex 4 (unat c)
      else [c])"

definition quote :: "jsstring \<Rightarrow> jsstring" where
  "quote s = [0x22] @ concat (map escape s) @ [0x22]"

fun decimal :: "nat \<Rightarrow> jsstring" where
  "decimal n = (if n < 10 then [hex_digit n] else decimal (n div 10) @ [hex_digit (n mod 10)])"

definition number_text :: "int \<Rightarrow> jsstring" where
  "number_text i = (if i < 0 then js ''-'' @ decimal (nat (- i)) else decimal (nat i))"

fun join :: "jsstring \<Rightarrow> jsstring list \<Rightarrow> jsstring" where
  "join sep [] = []"
| "join sep [x] = x"
| "join sep (x # y # ys) = x @ sep @ join sep (y # ys)"

fun canon :: "jsval \<Rightarrow> jsstring" where
  "canon Undefined = []"
| "canon Null = js ''null''"
| "canon (Bool b) = (if b then js ''true'' else js ''false'')"
| "canon (Num n) = number_text n"
| "canon (Str s) = quote s"
| "canon (Arr xs) = js ''['' @ join (js '','') (map canon xs) @ js '']''"
| "canon (Obj kvs) =
     js ''{'' @
     join (js '','') (map (\<lambda>kv. quote (fst kv) @ js '':'' @ snd kv)
                        (sort_key fst (map (\<lambda>kv. (fst kv, canon (snd kv))) kvs))) @
     js ''}''"

fun serializable :: "jsval \<Rightarrow> bool" where
  "serializable Undefined = False"
| "serializable (Arr xs) = list_all serializable xs"
| "serializable (Obj kvs) = list_all (\<lambda>kv. serializable (snd kv)) kvs"
| "serializable v = True"

definition canonicalize_spec :: "jsval \<Rightarrow> thrown + jsstring" where
  "canonicalize_spec payload =
     (if serializable payload then Inr (canon payload)
      else Inl (Some (js ''SerializationError'')))"

text \<open>
  Two payloads that are structurally equal and differ only in the order of the keys of
  their objects, at any nesting level. An object has each key once.
\<close>

inductive key_order_equiv :: "jsval \<Rightarrow> jsval \<Rightarrow> bool" where
  same: "key_order_equiv v v"
| arr: "list_all2 key_order_equiv xs ys \<Longrightarrow> key_order_equiv (Arr xs) (Arr ys)"
| obj: "distinct (map fst kvs) \<Longrightarrow> distinct (map fst kvs') \<Longrightarrow>
        set (map fst kvs) = set (map fst kvs') \<Longrightarrow>
        (\<And>k v v'. (k, v) \<in> set kvs \<Longrightarrow> (k, v') \<in> set kvs' \<Longrightarrow> key_order_equiv v v') \<Longrightarrow>
        key_order_equiv (Obj kvs) (Obj kvs')"

section \<open>A stand-in for the dependencies\<close>

text \<open>
  The theorems below hold for every behaviour of the dependencies that meets the
  contract they state. \<open>example_lib\<close> is one such behaviour, small enough to evaluate, at
  which they are instantiated: a TypeID is its prefix and its 128-bit number, written
  in base 32 and as UUID text; bytes are written in base64url; hashing and signing are
  replaced by a rolling checksum; the resolver and the JSON parser know a few values.
\<close>

definition base32_alphabet :: jsstring where
  "base32_alphabet = js ''0123456789abcdefghjkmnpqrstvwxyz''"

definition base64url_alphabet :: jsstring where
  "base64url_alphabet = js ''ABCDEFGHIJKLMNOPQRSTUVWXYZabcdefghijklmnopqrstuvwxyz0123456789-_''"

definition index_in :: "jsstring \<Rightarrow> jschar \<Rightarrow> nat" where
  "index_in alphabet c = length (takeWhile (\<lambda>a. a \<noteq> c) alphabet)"

fun base32 :: "nat \<Rightarrow> nat \<Rightarrow> jsstring" where
  "base32 0 n = []"
| "base32 (Suc w) n = base32 w (n div 32) @ [base32_alphabet ! (n mod 32)]"

definition base32_value :: "jsstring \<Rightarrow> nat" where
  "base32_value s = foldl (\<lambda>acc c. 32 * acc + index_in base32_alphabet c) 0 s"

type_synonym example_tid = "jsstring \<times> nat"

definition example_typeid :: "jsstring \<Rightarrow> nat \<Rightarrow> nat \<Rightarrow> example_tid" where
  "example_typeid prefix now entropy = (prefix, (now mod 2 ^ 48) * 2 ^ 80 + entropy mod 2 ^ 80)"

definition example_toUUID :: "example_tid \<Rightarrow> jsstring" where
  "example_toUUID tid =
     (let n = snd tid
      in hex 8 (n div 2 ^ 96) @ js ''-'' @ hex 4 (n div 2 ^ 80 mod 2 ^ 16) @ js ''-'' @
         hex 4 (n div 2 ^ 64 mod 2 ^ 16) @ js ''-'' @ hex 4 (n div 2 ^ 48 mod 2 ^ 16) @ js ''-'' @
         hex 12 (n mod 2 ^ 48))"

definition example_toString :: "example_tid \<Rightarrow> jsstring" where
  "example_toString tid =
     (if fst tid = [] then base32 26 (snd tid) else fst tid @ js ''_'' @ base32 26 (snd tid))"

definition example_suffix :: "jsstring \<Rightarrow> jsstring \<Rightarrow> thrown + example_tid" where
  "example_suffix prefix suffix =
     (if length suffix \<noteq> 26
      then Inl (Some (js ''Invalid length. Suffix should have 26 characters, got '' @
                      decimal (length suffix)))
      else if \<not> list_all (\<lambda>c. c \<in> set base32_alphabet) suffix
      then Inl (Some (js ''Invalid base32 character found''))
      else if 7 < index_in base32_alphabet (hd suffix)
      then Inl (Some (js ''Invalid suffix. First character must be in the range [0-7]''))
      else Inr (prefix, base32_value suffix))"

definition example_fromString :: "jsval \<Rightarrow> thrown + example_tid" where
  "example_fromString v =
     (case v of
        Str s \<Rightarrow>
          (case split s 0x5F of
             [suffix] \<Rightarrow> example_suffix [] suffix
           | [prefix, suffix] \<Rightarrow>
               if prefix = [] then Inl (Some (js ''Invalid TypeID. Prefix cannot be empty''))
               else example_suffix prefix suffix
           | _ \<Rightarrow> Inl (Some (js ''Invalid TypeId format'')))
      | _ \<Rightarrow> Inl (Some (js ''str.split is not a function'')))"

definition example_utf8 :: "jsstring \<Rightarrow> bytes" where
  "example_utf8 s =
     concat (map (\<lambda>c. let n = unat c in
                    if n < 0x80 then [of_nat n]
                    else if n < 0x800 then [of_nat (0xC0 + n div 64), of_nat (0x80 + n mod 64)]
                    else [of_nat (0xE0 + n div 4096), of_nat (0x80 + n div 64 mod 64),
                          of_nat (0x80 + n mod 64)]) s)"

fun example_base64url :: "bytes \<Rightarrow> jsstring" where
  "example_base64url [] = []"
| "example_base64url [a] =
     (let n = unat a
      in [base64url_alphabet ! (n div 4), base64url_alphabet ! (n mod 4 * 16)])"
| "example_base64url [a, b] =
     (let n = unat a * 256 + unat b
      in [base64url_alphabet ! (n div 1024), base64url_alphabet ! (n div 16 mod 64),
          base64url_alphabet ! (n mod 16 * 4)])"
| "example_base64url (a # b # c # rest) =
     (let n = unat a * 65536 + unat b * 256 + unat c
      in [base64url_alphabet ! (n div 262144), base64url_alphabet ! (n div 4096 mod 64),
          base64url_alphabet ! (n div 64 mod 64), base64url_alphabet ! (n mod 64)]) @
     example_base64url rest"

fun sextets_bytes :: "nat list \<Rightarrow> bytes" where
  "sextets_bytes (a # b # c # d # rest) =
     [of_nat (a * 4 + b div 16), of_nat (b mod 16 * 16 + c div 4), of_nat (c mod 4 * 64 + d)] @
     sextets_bytes rest"
| "sextets_bytes [a, b, c] = [of_nat (a * 4 + b div 16), of_nat (b mod 16 * 16 + c div 4)]"
| "sextets_bytes [a, b] = [of_nat (a * 4 + b div 16)]"
| "sextets_bytes [a] = []"
| "sextets_bytes [] = []"

definition example_base64url_decode :: "jsstring \<Rightarrow> thrown + bytes" where
  "example_base64url_decode s =
     (if list_all (\<lambda>c. c \<in> set base64url_alphabet) s
      then Inr (sextets_bytes (map (index_in base64url_alphabet) s))
      else Inl (Some (js ''Non-base64url character'')))"

text \<open>JSON text with the properties in the order the object has them.\<close>

fun stringify :: "jsval \<Rightarrow> jsstring" where
  "stringify Undefined = js ''null''"
| "stringify Null = js ''null''"
| "stringify (Bool b) = (if b then js ''true'' else js ''false'')"
| "stringify (Num n) = number_text n"
| "stringify (Str s) = quote s"
| "stringify (Arr xs) = js ''['' @ join (js '','') (map stringify xs) @ js '']''"
| "stringify (Obj kvs) =
     js ''{'' @
     join (js '','') (map (\<lambda>kv. quote (fst kv) @ js '':'' @ snd kv)
                        (map (\<lambda>kv. (fst kv, stringify (snd kv)))
                             (filter (\<lambda>kv. snd kv \<noteq> Undefined) kvs))) @
     js ''}''"

text \<open>A parser that knows the values of a list: it inverts \<open>stringify\<close> on them.\<close>

definition parse_known :: "jsval list \<Rightarrow> jsstring \<Rightarrow> thrown + jsval" where
  "parse_known known text =
     (case find (\<lambda>v. stringify v = text) known of
        None \<Rightarrow> Inl (Some (js ''JSON Parse error''))
      | Some v \<Rightarrow> Inr v)"

fun big_endian :: "nat \<Rightarrow> nat \<Rightarrow> bytes" where
  "big_endian 0 n = []"
| "big_endian (Suc w) n = big_endian w (n div 256) @ [of_nat (n mod 256)]"

definition example_hash :: "bytes \<Rightarrow> bytes" where
  "example_hash data =
     big_endian 32 (foldl (\<lambda>h b. (h * 257 + unat b + 1) mod 2 ^ 256) 0 data)"

text \<open>
  The stand-in for a signature: the checksum of the key and the data. A key is a JWK
  whose \<open>x\<close> names it, and it is public when it has no \<open>d\<close>.
\<close>

definition example_key :: "jsstring \<Rightarrow> jsval" where
  "example_key x = Obj [(js ''kty'', Str (js ''OKP'')), (js ''crv'', Str (js ''Ed25519'')), (js ''x'', Str x)]"

definition example_isPublicJwk :: "jsval \<Rightarrow> bool" where
  "example_isPublicJwk k =
     (case k of
        Obj kvs \<Rightarrow> map_of kvs (js ''kty'') \<noteq> None \<and> map_of kvs (js ''d'') = None
      | _ \<Rightarrow> False)"

definition example_signature :: "jsstring \<Rightarrow> bytes \<Rightarrow> bytes" where
  "example_signature x data = example_hash (example_utf8 x @ data)"

definition example_verify :: "jsval \<Rightarrow> bytes \<Rightarrow> bytes \<Rightarrow> thrown + bool" where
  "example_verify k data signature' =
     (case get_prop k (js ''x'') of
        Inr (Str x) \<Rightarrow> Inr (signature' = example_signature x data)
      | _ \<Rightarrow> Inl (Some (js ''Unsupported key'')))"

definition example_signer :: "jsstring \<Rightarrow> jsstring \<Rightarrow> jsstring \<Rightarrow> Signer" where
  "example_signer alg kid x =
     \<lparr>algorithm = alg, keyId = kid, sign = (\<lambda>data. Inr (example_signature x data))\<rparr>"

definition example_did :: "jsstring \<Rightarrow> jsstring \<Rightarrow> jsstring \<Rightarrow> jsstring \<Rightarrow> BearerDid" where
  "example_did did alg kid x = \<lparr>uri = did, getSigner = Inr (example_signer alg kid x)\<rparr>"

text \<open>
  The resolver knows three key ids: alice's, with a public JWK; one whose verification
  method has no \<open>publicKeyJwk\<close>; and the empty one.
\<close>

definition example_dereference :: "jsstring \<Rightarrow> thrown + jsval contentStream" where
  "example_dereference kid =
     (if kid = js ''did:example:alice#0'' then Inr (VerificationMethod (example_key (js ''alice'')))
      else if kid = js ''did:example:multibase#0'' then Inr (VerificationMethod Undefined)
      else if kid = [] then Inr (VerificationMethod (example_key (js ''nobody'')))
      else Inr NotVerificationMethod)"

definition example_lib :: "jsval list \<Rightarrow> (example_tid, jsval) library" where
  "example_lib known =
     \<lparr>typeid = example_typeid,
      TypeID_fromString = example_fromString,
      TypeID_getType = fst,
      TypeID_toString = example_toString,
      TypeID_toUUID = example_toUUID,
      canonicalize = canonicalize_spec,
      Sha256_digest = example_hash,
      string_toUint8Array = example_utf8,
      uint8Array_toBase64Url = example_base64url,
      object_toBase64Url = (\<lambda>v. example_base64url (example_utf8 (stringify v))),
      base64Url_toObject =
        (\<lambda>s. case example_base64url_decode s of
               Inl t \<Rightarrow> Inl t
             | Inr b \<Rightarrow> parse_known known (map (\<lambda>x. of_nat (unat x)) b)),
      base64Url_toUint8Array = example_base64url_decode,
      DidResolver_dereference = example_dereference,
      isPublicJwk = example_isPublicJwk,
      keyManager_verify = example_verify,
      JSON_parse = parse_known known,
      JSON_stringify = stringify\<rparr>"

text \<open>
  Alice, her JWS header, and a registration of hers that is not yet signed, declaring
  the DID \<open>did\<close>.
\<close>

definition example_alice :: BearerDid where
  "example_alice =
     example_did (js ''did:example:alice'') (js ''EdDSA'') (js ''did:example:alice#0'') (js ''alice'')"

definition example_header :: jsval where
  "example_header = Obj [(js ''alg'', Str (js ''EdDSA'')), (js ''kid'', Str (js ''did:example:alice#0''))]"

definition example_unsigned :: "jsstring \<Rightarrow> example_tid DapRegistration" where
  "example_unsigned did =
     DapRegistration_new (RegistrationId (example_typeid (js ''reg'') 1626307200000 12345))
       (Str (js ''alice'')) (Str did) (Str (js ''domain.com'')) Undefined"


section \<open>Properties\<close>

declare decimal.simps [simp del]

subsection \<open>The regular expressions\<close>

lemma longest_first_SomeD:
  "longest_first f n = Some r \<Longrightarrow> \<exists>k. 0 < k \<and> k \<le> n \<and> f k = Some r"
proof (induction n)
  case 0
  then show ?case by simp
next
  case (Suc n)
  show ?case
  proof (cases "f (Suc n)")
    case None
    with Suc.prems have "longest_first f n = Some r" by simp
    with Suc.IH obtain k where "0 < k" "k \<le> n" "f k = Some r" by blast
    then show ?thesis by (intro exI[of _ k]) simp
  next
    case (Some a)
    with Suc.prems have "a = r" by simp
    with Some show ?thesis by (intro exI[of _ "Suc n"]) simp
  qed
qed

lemma longest_first_top:
  assumes "\<And>k. 0 < k \<Longrightarrow> k < n \<Longrightarrow> f k = None"
  shows "longest_first f n = (if n = 0 then None else f n)"
proof (cases n)
  case 0
  then show ?thesis by simp
next
  case (Suc m)
  have below: "longest_first f m = None"
  proof (rule ccontr)
    assume "longest_first f m \<noteq> None"
    then obtain r where "longest_first f m = Some r" by blast
    from longest_first_SomeD[OF this]
    obtain k where k: "0 < k" "k \<le> m" "f k = Some r" by blast
    from k Suc have "k < n" by simp
    with k(1) have "f k = None" by (rule assms)
    with k(3) show False by simp
  qed
  show ?thesis
  proof (cases "f (Suc m)")
    case None
    with below Suc show ?thesis by simp
  next
    case (Some a)
    with Suc show ?thesis by simp
  qed
qed

text \<open>The last group of a pattern: it must take the whole rest.\<close>

lemma exec_last_group:
  "exec [Group c] t = (if t \<noteq> [] \<and> list_all (cls_matches c) t then Some [t] else None)"
proof -
  let ?n = "length (takeWhile (cls_matches c) t)"
  let ?f = "\<lambda>k. map_option ((#) (take k t)) (if drop k t = [] then Some [] else None)"
  have le: "?n \<le> length t" by (rule length_takeWhile_le)
  have none: "?f k = None" if "k < ?n" for k
    using that le by simp
  have "exec [Group c] t = longest_first ?f ?n" by simp
  also have "\<dots> = (if ?n = 0 then None else ?f ?n)"
    by (rule longest_first_top) (rule none)
  also have "\<dots> = (if t \<noteq> [] \<and> list_all (cls_matches c) t then Some [t] else None)"
  proof (cases "list_all (cls_matches c) t")
    case True
    then have tw: "takeWhile (cls_matches c) t = t"
      by (simp add: list_all_iff takeWhile_eq_all_conv)
    show ?thesis unfolding tw using True by simp
  next
    case False
    then have "takeWhile (cls_matches c) t \<noteq> t"
      by (simp add: list_all_iff takeWhile_eq_all_conv)
    then have "?n \<noteq> length t"
      by (metis takeWhile_eq_take take_all order_refl)
    with le have "?n < length t" by simp
    then show ?thesis using False by simp
  qed
  finally show ?thesis .
qed

text \<open>A group over a negated class, followed by a literal character of the class's list.\<close>

lemma exec_group_then_sep:
  assumes "c \<in> set cs"
  shows "exec (Group (NoneOf cs) # Lit [c] # rest) r =
     (let h = takeWhile (\<lambda>x. x \<notin> set cs) r in
      if h \<noteq> [] \<and> take 1 (drop (length h) r) = [c]
      then map_option ((#) h) (exec rest (drop (Suc (length h)) r))
      else None)"
proof -
  let ?h = "takeWhile (\<lambda>x. x \<notin> set cs) r"
  let ?n = "length ?h"
  let ?f = "\<lambda>k. map_option ((#) (take k r))
               (if take 1 (drop k r) = [c] then exec rest (drop 1 (drop k r)) else None)"
  have cm: "cls_matches (NoneOf cs) = (\<lambda>x. x \<notin> set cs)" by (rule ext) simp
  have none: "?f k = None" if "k < ?n" for k
  proof -
    have "r ! k \<in> set ?h"
      using that by (metis nth_mem takeWhile_nth)
    then have "r ! k \<notin> set cs" by (auto dest: set_takeWhileD)
    with assms have "r ! k \<noteq> c" by auto
    moreover have "k < length r" using that length_takeWhile_le[of _ r] by (meson less_le_trans)
    ultimately have "take 1 (drop k r) \<noteq> [c]"
      by (simp add: take_Suc_conv_app_nth hd_drop_conv_nth take_Suc)
    then show ?thesis by simp
  qed
  have "exec (Group (NoneOf cs) # Lit [c] # rest) r = longest_first ?f ?n"
    by (simp add: cm cong: if_cong)
  also have "\<dots> = (if ?n = 0 then None else ?f ?n)"
    by (rule longest_first_top) (rule none)
  also have "\<dots> = (let h = ?h in
      if h \<noteq> [] \<and> take 1 (drop (length h) r) = [c]
      then map_option ((#) h) (exec rest (drop (Suc (length h)) r))
      else None)"
    by (simp add: Let_def takeWhile_eq_take[symmetric])
  finally show ?thesis .
qed


lemma exec_lit:
  "exec (Lit p # rest) s = (if take (length p) s = p then exec rest (drop (length p) s) else None)"
  by simp

text \<open>The shape both patterns have: a literal, a group, a separator, a last group.\<close>

lemma exec_two_groups_accept:
  assumes c: "c \<in> set cs"
    and h: "h \<noteq> []" "set h \<inter> set cs = {}"
    and t: "t \<noteq> []" "list_all (cls_matches g) t"
  shows "exec [Lit p, Group (NoneOf cs), Lit [c], Group g] (p @ h @ [c] @ t) = Some [h, t]"
proof -
  have tw: "takeWhile (\<lambda>x. x \<notin> set cs) (h @ c # t) = h"
  proof -
    have "\<And>x. x \<in> set h \<Longrightarrow> x \<notin> set cs" using h(2) by blast
    then have "takeWhile (\<lambda>x. x \<notin> set cs) (h @ c # t) = h @ takeWhile (\<lambda>x. x \<notin> set cs) (c # t)"
      by (rule takeWhile_append2)
    then show ?thesis using c by simp
  qed
  have "exec [Lit p, Group (NoneOf cs), Lit [c], Group g] (p @ h @ [c] @ t)
      = exec [Group (NoneOf cs), Lit [c], Group g] (h @ c # t)"
    by (simp only: exec_lit) simp
  also have "\<dots> = map_option ((#) h) (exec [Group g] t)"
    by (simp only: exec_group_then_sep[OF c] tw Let_def) (simp add: h(1))
  also have "\<dots> = Some [h, t]"
    by (simp only: exec_last_group) (simp add: t)
  finally show ?thesis .
qed

lemma exec_two_groups_SomeD:
  assumes c: "c \<in> set cs"
    and ex: "exec [Lit p, Group (NoneOf cs), Lit [c], Group g] s = Some gs"
  shows "\<exists>h t. gs = [h, t] \<and> s = p @ h @ [c] @ t \<and> h \<noteq> [] \<and> set h \<inter> set cs = {} \<and>
               t \<noteq> [] \<and> list_all (cls_matches g) t"
proof -
  define r where "r = drop (length p) s"
  define h where "h = takeWhile (\<lambda>x. x \<notin> set cs) r"
  define t where "t = drop (Suc (length h)) r"
  have p: "take (length p) s = p"
  proof (rule ccontr)
    assume "take (length p) s \<noteq> p"
    then have "exec [Lit p, Group (NoneOf cs), Lit [c], Group g] s = None"
      by (simp only: exec_lit if_False simp_thms)
    with ex show False by simp
  qed
  with ex have ex1: "exec [Group (NoneOf cs), Lit [c], Group g] r = Some gs"
    unfolding r_def by (simp only: exec_lit if_True simp_thms)
  have cond: "h \<noteq> [] \<and> take 1 (drop (length h) r) = [c]"
  proof (rule ccontr)
    assume "\<not> (h \<noteq> [] \<and> take 1 (drop (length h) r) = [c])"
    then have "exec [Group (NoneOf cs), Lit [c], Group g] r = None"
      unfolding h_def by (simp only: exec_group_then_sep[OF c] Let_def if_False simp_thms)
    with ex1 show False by simp
  qed
  then have hne: "h \<noteq> []" and sep: "take 1 (drop (length h) r) = [c]" by simp_all
  from ex1 cond have ex2: "map_option ((#) h) (exec [Group g] t) = Some gs"
    unfolding h_def t_def by (simp only: exec_group_then_sep[OF c] Let_def if_True simp_thms)
  have cond2: "t \<noteq> [] \<and> list_all (cls_matches g) t"
  proof (rule ccontr)
    assume "\<not> (t \<noteq> [] \<and> list_all (cls_matches g) t)"
    then have "exec [Group g] t = None"
      by (simp only: exec_last_group if_False simp_thms)
    with ex2 show False by simp
  qed
  then have tne: "t \<noteq> []" and tall: "list_all (cls_matches g) t" by simp_all
  from ex2 cond2 have gs: "gs = [h, t]"
    by (simp only: exec_last_group if_True simp_thms) simp
  have "s = take (length p) s @ r" unfolding r_def by simp
  then have s: "s = p @ r" using p by simp
  have "r = take (length h) r @ drop (length h) r" by simp
  moreover have "take (length h) r = h"
    unfolding h_def by (simp add: takeWhile_eq_take[symmetric])
  moreover have "drop (length h) r = c # t"
  proof -
    from sep have ne: "drop (length h) r \<noteq> []" by auto
    then obtain x xs where x: "drop (length h) r = x # xs" by (cases "drop (length h) r") auto
    with sep have "x = c" by simp
    moreover have "xs = t"
      unfolding t_def using x by (metis drop_Suc tl_drop list.sel(3))
    ultimately show ?thesis using x by simp
  qed
  ultimately have r: "r = h @ c # t" by simp
  have "set h \<inter> set cs = {}"
    unfolding h_def by (auto dest: set_takeWhileD)
  with gs s r hne tne tall show ?thesis by auto
qed


lemma js_literals:
  "js ''urn:'' = [0x75, 0x72, 0x6E, 0x3A]" "js '':'' = [0x3A]"
  "js ''@'' = [0x40]" "js ''/'' = [0x2F]"
  by (simp_all add: js_def)

lemma URN_PATTERN_shape:
  "URN_PATTERN = [Lit (js ''urn:''), Group (NoneOf [0x3A]), Lit [0x3A], Group AnyChar]"
  by (simp add: URN_PATTERN_def Urn_PREFIX_def Urn_SEPARATOR_def js_literals)

lemma DAP_REGEX_shape:
  "DAP_REGEX = [Lit [0x40], Group (NoneOf [0x40, 0x2F]), Lit [0x2F], Group (NoneOf [0x40, 0x2F])]"
  by (simp add: DAP_REGEX_def Dap_PREFIX_def Dap_SEPARATOR_def js_literals)

lemma Urn_parse_accept:
  assumes "nid' \<noteq> []" and "0x3A \<notin> set nid'"
    and "nss' \<noteq> []" and "set nss' \<inter> set line_terminators = {}"
  shows "Urn_parse (js ''urn:'' @ nid' @ js '':'' @ nss') = Inr (Urn_new nid' nss') \<and>
         nid (Urn_new nid' nss') = nid' \<and> nss (Urn_new nid' nss') = nss' \<and>
         Urn_toString (Urn_new nid' nss') = js ''urn:'' @ nid' @ js '':'' @ nss'"
proof -
  have all: "list_all (cls_matches AnyChar) nss'"
    using assms(4) by (auto simp add: list_all_iff)
  have "exec URN_PATTERN (js ''urn:'' @ nid' @ [0x3A] @ nss') = Some [nid', nss']"
    unfolding URN_PATTERN_shape
    by (rule exec_two_groups_accept) (use assms all in simp_all)
  then have "Urn_parse (js ''urn:'' @ nid' @ js '':'' @ nss') = Inr (Urn_new nid' nss')"
    by (simp add: Urn_parse_def js_literals)
  then show ?thesis
    by (simp add: Urn_new_def Urn_toString_def Urn_PREFIX_def)
qed


subsection \<open>Urn\<close>

text \<open>
  Claim C6, as amended. For every string \<open>urn:nid:nss\<close> with a non-empty \<open>nid\<close>
  that contains no \<open>:\<close> and a non-empty \<open>nss\<close> that contains no line terminator (U+000A,
  U+000D, U+2028, U+2029; it may contain \<open>:\<close>), \<open>Urn.parse\<close> succeeds with these two
  components, and \<open>toString\<close> of the result is the input, code unit for code unit.
\<close>

theorem Urn_parse_roundtrip:
  assumes "nid' \<noteq> []" and "0x3A \<notin> set nid'"
    and "nss' \<noteq> []" and "set nss' \<inter> set line_terminators = {}"
  shows "\<exists>u. Urn_parse (js ''urn:'' @ nid' @ js '':'' @ nss') = Inr u \<and>
             nid u = nid' \<and> nss u = nss' \<and>
             Urn_toString u = js ''urn:'' @ nid' @ js '':'' @ nss'"
  using Urn_parse_accept[OF assms] by blast

theorem Urn_parse_roundtrip_witness:
  "\<exists>u. Urn_parse (js ''urn:nid:nss1:nss2:nss3'') = Inr u \<and>
       nid u = js ''nid'' \<and> nss u = js ''nss1:nss2:nss3'' \<and>
       Urn_toString u = js ''urn:nid:nss1:nss2:nss3''"
  using Urn_parse_roundtrip[of "js ''nid''" "js ''nss1:nss2:nss3''"]
  by (simp add: js_def line_terminators_def)

text \<open>
  The claim as stated also covers an \<open>nss\<close> with a line terminator, where \<open>.+\<close> stops
  and \<open>$\<close> fails: \<open>urn:a:b\<close> followed by a line feed is rejected.
\<close>
theorem Urn_parse_line_terminator:
  "js ''a'' \<noteq> [] \<and> 0x3A \<notin> set (js ''a'') \<and> js ''b'' @ [0x0A] \<noteq> [] \<and>
   Urn_parse (js ''urn:'' @ js ''a'' @ js '':'' @ (js ''b'' @ [0x0A])) = Inl (InvalidUrn (js ''Invalid URN''))"
proof -
  have "exec URN_PATTERN (js ''urn:a:b'' @ [0x0A]) = None"
  proof (cases "exec URN_PATTERN (js ''urn:a:b'' @ [0x0A])")
    case None then show ?thesis .
  next
    case (Some gs)
    then obtain h t where "js ''urn:a:b'' @ [0x0A] = js ''urn:'' @ h @ [0x3A] @ t"
      "set h \<inter> set [0x3A] = {}" "list_all (cls_matches AnyChar) t"
      unfolding URN_PATTERN_shape using exec_two_groups_SomeD[of "0x3A" "[0x3A]"] by fastforce
    then show ?thesis
      by (auto simp add: js_def line_terminators_def list_all_iff append_eq_Cons_conv Cons_eq_append_conv)
  qed
  then show ?thesis
    by (simp add: Urn_parse_def InvalidUrn_new_def js_def)
qed


subsection \<open>Dap\<close>

lemma Dap_parse_accept:
  assumes "dap_grammar s h d"
  shows "Dap_parse s = Inr \<lparr>handle = h, domain = d\<rparr>"
proof -
  from assms have s: "s = [0x40] @ h @ [0x2F] @ d" and h: "h \<noteq> []" "set h \<inter> set [0x40, 0x2F] = {}"
    and d: "d \<noteq> []" "set d \<inter> set [0x40, 0x2F] = {}"
    by (simp_all add: dap_grammar_def js_literals)
  from d(2) have all: "list_all (cls_matches (NoneOf [0x40, 0x2F])) d"
    by (auto simp add: list_all_iff)
  have "exec DAP_REGEX s = Some [h, d]"
    unfolding DAP_REGEX_shape s
    by (rule exec_two_groups_accept) (use h d(1) all in simp_all)
  then show ?thesis by (simp add: Dap_parse_def Dap_new_def)
qed

lemma Dap_parse_reject:
  assumes "\<And>h d. \<not> dap_grammar s h d"
  shows "Dap_parse s = Inl (InvalidDap (js ''Invalid DAP''))"
proof -
  have "exec DAP_REGEX s = None"
  proof (cases "exec DAP_REGEX s")
    case None then show ?thesis .
  next
    case (Some gs)
    have "(0x2F :: jschar) \<in> set [0x40, 0x2F]" by simp
    from exec_two_groups_SomeD[OF this Some[unfolded DAP_REGEX_shape]]
    obtain h t where *: "s = [0x40] @ h @ [0x2F] @ t" "h \<noteq> []" "set h \<inter> set [0x40, 0x2F] = {}"
      "t \<noteq> []" "list_all (cls_matches (NoneOf [0x40, 0x2F])) t" by blast
    from *(5) have "set t \<inter> set [0x40, 0x2F] = {}" by (auto simp add: list_all_iff)
    with * have "dap_grammar s h t" by (simp add: dap_grammar_def js_literals)
    with assms show ?thesis by blast
  qed
  then show ?thesis by (simp add: Dap_parse_def InvalidDap_new_def)
qed

text \<open>
  Claim C7. \<open>Dap.parse\<close> accepts exactly the strings of the grammar
  \<open>^@([^@/]+)/([^@/]+)$\<close>: either the input is such a string, and then the result holds
  its handle and its domain and \<open>toString\<close> gives the input back; or it is not (no \<open>@\<close>
  at the start, no \<open>/\<close>, a further \<open>@\<close> or \<open>/\<close> in a segment, an empty segment), and
  then \<open>parse\<close> throws \<open>InvalidDap\<close>.
\<close>

theorem Dap_parse_exact:
  "(\<exists>h d. dap_grammar s h d \<and> Dap_parse s = Inr \<lparr>handle = h, domain = d\<rparr> \<and>
          Dap_toString \<lparr>handle = h, domain = d\<rparr> = s) \<or>
   ((\<forall>h d. \<not> dap_grammar s h d) \<and> Dap_parse s = Inl (InvalidDap (js ''Invalid DAP'')))"
proof (cases "\<exists>h d. dap_grammar s h d")
  case True
  then obtain h d where g: "dap_grammar s h d" by blast
  then have "Dap_toString \<lparr>handle = h, domain = d\<rparr> = s"
    by (simp add: dap_grammar_def Dap_toString_def Dap_PREFIX_def Dap_SEPARATOR_def)
  with g Dap_parse_accept[OF g] show ?thesis by blast
next
  case False
  then have "Dap_parse s = Inl (InvalidDap (js ''Invalid DAP''))"
    by (intro Dap_parse_reject) blast
  with False show ?thesis by blast
qed

theorem Dap_parse_exact_witness:
  "Dap_parse (js ''@handle/domain.com'') = Inr \<lparr>handle = js ''handle'', domain = js ''domain.com''\<rparr> \<and>
   Dap_parse (js ''@handle//domain.com'') = Inl (InvalidDap (js ''Invalid DAP''))"
proof -
  have 1: "dap_grammar (js ''@handle/domain.com'') (js ''handle'') (js ''domain.com'')"
    by (simp add: dap_grammar_def js_def)
  have 2: "\<not> dap_grammar (js ''@handle//domain.com'') h d" for h d
    by (auto simp add: dap_grammar_def js_def append_eq_Cons_conv Cons_eq_append_conv)
  from Dap_parse_exact[of "js ''@handle/domain.com''"] 1
  have a: "Dap_parse (js ''@handle/domain.com'') = Inr \<lparr>handle = js ''handle'', domain = js ''domain.com''\<rparr>"
    using Dap_parse_accept[OF 1] by simp
  from Dap_parse_exact[of "js ''@handle//domain.com''"] 2
  have b: "Dap_parse (js ''@handle//domain.com'') = Inl (InvalidDap (js ''Invalid DAP''))"
    by blast
  from a b show ?thesis by simp
qed

subsection \<open>The constructors\<close>

text \<open>
  Claim C10. The constructors of \<open>Urn\<close> and \<open>Dap\<close> take any two strings, so the round
  trip holds for parsed values only: the Urn made of \<open>a:b\<close> and \<open>c\<close> prints as
  \<open>urn:a:b:c\<close>, which parses to other components (\<open>a\<close> and \<open>b:c\<close>), and the Dap made of
  \<open>a/b\<close> and \<open>c\<close> prints as \<open>@a/b/c\<close>, which does not parse.
\<close>

theorem constructors_do_not_validate:
  "Urn_parse (Urn_toString (Urn_new (js ''a:b'') (js ''c''))) = Inr (Urn_new (js ''a'') (js ''b:c'')) \<and>
   Urn_new (js ''a'') (js ''b:c'') \<noteq> Urn_new (js ''a:b'') (js ''c'') \<and>
   Dap_parse (Dap_toString (Dap_new (js ''a/b'') (js ''c''))) = Inl (InvalidDap (js ''Invalid DAP''))"
proof -
  have u: "Urn_toString (Urn_new (js ''a:b'') (js ''c'')) = js ''urn:'' @ js ''a'' @ js '':'' @ js ''b:c''"
    by (simp add: Urn_toString_def Urn_new_def Urn_PREFIX_def js_def)
  have 1: "Urn_parse (Urn_toString (Urn_new (js ''a:b'') (js ''c''))) = Inr (Urn_new (js ''a'') (js ''b:c''))"
    unfolding u using Urn_parse_accept[of "js ''a''" "js ''b:c''"]
    by (simp add: js_def line_terminators_def)
  have 2: "Urn_new (js ''a'') (js ''b:c'') \<noteq> Urn_new (js ''a:b'') (js ''c'')"
    by (simp add: Urn_new_def js_def)
  have d: "Dap_toString (Dap_new (js ''a/b'') (js ''c'')) = js ''@a/b/c''"
    by (simp add: Dap_toString_def Dap_new_def Dap_PREFIX_def Dap_SEPARATOR_def js_def)
  have "\<not> dap_grammar (js ''@a/b/c'') h t" for h t
    by (auto simp add: dap_grammar_def js_def append_eq_Cons_conv Cons_eq_append_conv)
  then have 3: "Dap_parse (Dap_toString (Dap_new (js ''a/b'') (js ''c''))) = Inl (InvalidDap (js ''Invalid DAP''))"
    unfolding d by (intro Dap_parse_reject)
  from 1 2 3 show ?thesis by simp
qed

subsection \<open>RegistrationId\<close>

lemma hex_digit_cases:
  assumes "d < 16"
  shows "hex_digit d \<in> set (js ''0123456789abcdef'')"
proof -
  from assms have "d = 0 \<or> d = 1 \<or> d = 2 \<or> d = 3 \<or> d = 4 \<or> d = 5 \<or> d = 6 \<or> d = 7 \<or>
      d = 8 \<or> d = 9 \<or> d = 10 \<or> d = 11 \<or> d = 12 \<or> d = 13 \<or> d = 14 \<or> d = 15" by arith
  then show ?thesis
    by (elim disjE) (simp_all add: hex_digit_def js_def)
qed

lemma digit_value_hex_digit:
  assumes "d < 16"
  shows "digit_value (hex_digit d) = Some d"
proof -
  from assms have "d = 0 \<or> d = 1 \<or> d = 2 \<or> d = 3 \<or> d = 4 \<or> d = 5 \<or> d = 6 \<or> d = 7 \<or>
      d = 8 \<or> d = 9 \<or> d = 10 \<or> d = 11 \<or> d = 12 \<or> d = 13 \<or> d = 14 \<or> d = 15" by arith
  then show ?thesis
    by (elim disjE) (simp_all add: hex_digit_def digit_value_def)
qed

lemma hex_chars:
  "c \<in> set (js ''0123456789abcdef'') \<Longrightarrow>
     \<not> StrWhiteSpaceChar c \<and> c \<noteq> 0x2D \<and> c \<noteq> 0x2B \<and> c \<noteq> 0x78 \<and> c \<noteq> 0x58"
  by (auto simp add: js_def StrWhiteSpaceChar_def)

lemma set_hex: "c \<in> set (hex w n) \<Longrightarrow> c \<in> set (js ''0123456789abcdef'')"
proof (induction w arbitrary: n)
  case 0
  then show ?case by simp
next
  case (Suc w)
  from Suc.prems have "c \<in> set (hex w (n div 16)) \<or> c = hex_digit (n mod 16)" by auto
  then show ?case
  proof
    assume "c \<in> set (hex w (n div 16))"
    then show ?thesis by (rule Suc.IH)
  next
    assume "c = hex_digit (n mod 16)"
    then show ?thesis using hex_digit_cases[of "n mod 16"] by simp
  qed
qed

lemma length_hex: "length (hex w n) = w"
  by (induction w arbitrary: n) simp_all

lemma is_digit_hex: "c \<in> set (hex w n) \<Longrightarrow> is_digit 16 c"
proof (induction w arbitrary: n)
  case 0
  then show ?case by simp
next
  case (Suc w)
  from Suc.prems have "c \<in> set (hex w (n div 16)) \<or> c = hex_digit (n mod 16)" by auto
  then show ?case
  proof
    assume "c \<in> set (hex w (n div 16))"
    then show ?thesis by (rule Suc.IH)
  next
    assume "c = hex_digit (n mod 16)"
    then show ?thesis using digit_value_hex_digit[of "n mod 16"] by (simp add: is_digit_def)
  qed
qed

lemma foldl_hex:
  "foldl (\<lambda>acc c. 16 * acc + the (digit_value c)) a (hex w n) = a * 16 ^ w + n mod 16 ^ w"
proof (induction w arbitrary: n)
  case 0
  then show ?case by simp
next
  case (Suc w)
  have "foldl (\<lambda>acc c. 16 * acc + the (digit_value c)) a (hex (Suc w) n)
      = 16 * (a * 16 ^ w + (n div 16) mod 16 ^ w) + n mod 16"
    by (simp add: Suc.IH digit_value_hex_digit)
  also have "\<dots> = a * 16 ^ Suc w + (16 * ((n div 16) mod 16 ^ w) + n mod 16)"
    by (simp add: algebra_simps)
  also have "16 * ((n div 16) mod 16 ^ w) + n mod 16 = n mod 16 ^ Suc w"
    by (simp add: mod_mult2_eq)
  finally show ?case .
qed

lemma digits_value_timestamp:
  assumes "t < 2 ^ 48"
  shows "digits_value 16 (hex 8 (t div 2 ^ 16) @ hex 4 (t mod 2 ^ 16)) = t"
proof -
  have hi: "t div 2 ^ 16 < 16 ^ 8"
    using assms by (simp add: less_mult_imp_div_less)
  have "digits_value 16 (hex 8 (t div 2 ^ 16) @ hex 4 (t mod 2 ^ 16))
      = ((t div 2 ^ 16) mod 16 ^ 8) * 16 ^ 4 + (t mod 2 ^ 16) mod 16 ^ 4"
    by (simp only: digits_value_def foldl_append foldl_hex) simp
  also have "\<dots> = (t div 2 ^ 16) * 2 ^ 16 + t mod 2 ^ 16"
    using hi by simp
  also have "\<dots> = t" by simp
  finally show ?thesis .
qed

lemma parseInt_hex:
  "parseInt (hex 8 a @ hex 4 b) 16 = Some (int (digits_value 16 (hex 8 a @ hex 4 b)))"
proof -
  let ?s = "hex 8 a @ hex 4 b"
  have chars: "\<And>c. c \<in> set ?s \<Longrightarrow> c \<in> set (js ''0123456789abcdef'')"
    by (auto dest: set_hex)
  have "length ?s = Suc (Suc 10)" by (simp add: length_hex)
  then obtain x y rest where s: "?s = x # y # rest"
    by (metis length_Suc_conv)
  have x: "x \<in> set ?s" and y: "y \<in> set ?s" unfolding s by simp_all
  note cx = hex_chars[OF chars[OF x]] and cy = hex_chars[OF chars[OF y]]
  have tw: "takeWhile (is_digit 16) ?s = ?s"
    by (rule takeWhile_eq_all_conv[THEN iffD2]) (auto dest: is_digit_hex)
  have ws: "dropWhile StrWhiteSpaceChar (x # y # rest) = x # y # rest"
    using cx by simp
  have "parseInt (x # y # rest) 16 = Some (int (digits_value 16 (x # y # rest)))"
    unfolding parseInt_def ws Let_def
    using cx cy by (simp add: js_def tw[unfolded s] del: takeWhile.simps)
  then show ?thesis unfolding s .
qed

lemma parseInt_timestamp:
  assumes "t < 2 ^ 48"
  shows "parseInt (hex 8 (t div 2 ^ 16) @ hex 4 (t mod 2 ^ 16)) 16 = Some (int t)"
  by (simp only: parseInt_hex digits_value_timestamp[OF assms])

lemma remove1_timestamp:
  "remove1 0x2D (uuid_timestamp_text t) = hex 8 (t div 2 ^ 16) @ hex 4 (t mod 2 ^ 16)"
proof -
  have "0x2D \<notin> set (hex 8 (t div 2 ^ 16))"
    using hex_chars set_hex by blast
  then show ?thesis
    by (simp add: uuid_timestamp_text_def remove1_append js_def)
qed

lemma extractTimestamp_at:
  assumes "t < 2 ^ 48"
    and "take 13 (TypeID_toUUID lib (typeid lib (js ''reg'') t entropy)) = uuid_timestamp_text t"
  shows "extractTimestamp lib (RegistrationId_create lib t entropy) = Some (int t)"
proof -
  have "extractTimestamp lib (RegistrationId_create lib t entropy)
      = parseInt (remove1 0x2D (uuid_timestamp_text t)) 16"
    by (simp add: extractTimestamp_def RegistrationId_create_def assms(2))
  also have "\<dots> = Some (int t)"
    by (simp only: remove1_timestamp parseInt_timestamp[OF assms(1)])
  finally show ?thesis .
qed


text \<open>
  Claim C9. When \<open>typeid\<close> puts the creation time \<open>t\<close>, in milliseconds and below
  \<open>2^48\<close>, into the first 48 bits of the identifier, so that the UUID text starts with
  its twelve hexadecimal digits, \<open>extractTimestamp\<close> of the identifier created at \<open>t\<close> is
  \<open>t\<close>; and the timestamps of two identifiers created one millisecond apart differ by
  exactly 1.
\<close>

theorem extractTimestamp_create:
  assumes "t + 1 < 2 ^ 48"
    and "take 13 (TypeID_toUUID lib (typeid lib (js ''reg'') t entropy)) = uuid_timestamp_text t"
    and "take 13 (TypeID_toUUID lib (typeid lib (js ''reg'') (t + 1) entropy')) = uuid_timestamp_text (t + 1)"
  shows "extractTimestamp lib (RegistrationId_create lib t entropy) = Some (int t) \<and>
         extractTimestamp lib (RegistrationId_create lib (t + 1) entropy') = Some (int t + 1) \<and>
         minus_number (extractTimestamp lib (RegistrationId_create lib (t + 1) entropy'))
                      (extractTimestamp lib (RegistrationId_create lib t entropy)) = Some 1"
proof -
  from assms(1) have t: "t < 2 ^ 48" by simp
  have a: "extractTimestamp lib (RegistrationId_create lib t entropy) = Some (int t)"
    using t assms(2) by (rule extractTimestamp_at)
  have b: "extractTimestamp lib (RegistrationId_create lib (t + 1) entropy') = Some (int (t + 1))"
    using assms(1) assms(3) by (rule extractTimestamp_at)
  from a b show ?thesis by (simp add: minus_number_def)
qed

lemma example_toUUID_timestamp:
  assumes "t < 2 ^ 48"
  shows "take 13 (example_toUUID (example_typeid p t e)) = uuid_timestamp_text t"
proof -
  let ?n = "(t mod 2 ^ 48) * 2 ^ 80 + e mod 2 ^ 80"
  have tm: "t mod 2 ^ 48 = t" using assms by simp
  have "?n div 2 ^ 80 = t"
    unfolding tm by simp
  then have lo: "?n div 2 ^ 80 mod 2 ^ 16 = t mod 2 ^ 16" by simp
  have "?n div 2 ^ 96 = ?n div 2 ^ 80 div 2 ^ 16"
    by (simp add: div_mult2_eq[symmetric] power_add[symmetric])
  also have "\<dots> = t div 2 ^ 16" using \<open>?n div 2 ^ 80 = t\<close> by simp
  finally have hi: "?n div 2 ^ 96 = t div 2 ^ 16" .
  show ?thesis
    unfolding example_toUUID_def example_typeid_def Let_def snd_conv hi lo uuid_timestamp_text_def
    by (simp add: length_hex js_def)
qed

theorem extractTimestamp_create_witness:
  "extractTimestamp (example_lib []) (RegistrationId_create (example_lib []) 1626307200000 12345)
     = Some 1626307200000 \<and>
   minus_number
     (extractTimestamp (example_lib []) (RegistrationId_create (example_lib []) 1626307200001 67890))
     (extractTimestamp (example_lib []) (RegistrationId_create (example_lib []) 1626307200000 12345))
     = Some 1"
proof -
  have 1: "(1626307200000::nat) + 1 < 2 ^ 48" by simp
  have 2: "take 13 (TypeID_toUUID (example_lib []) (typeid (example_lib []) (js ''reg'') 1626307200000 12345))
      = uuid_timestamp_text 1626307200000"
    by (simp add: example_lib_def example_toUUID_timestamp)
  have 3: "take 13 (TypeID_toUUID (example_lib []) (typeid (example_lib []) (js ''reg'') (1626307200000 + 1) 67890))
      = uuid_timestamp_text (1626307200000 + 1)"
    by (simp add: example_lib_def example_toUUID_timestamp)
  from extractTimestamp_create[OF 1 2 3] show ?thesis by (simp add: minus_number_def)
qed



subsection \<open>Crypto\<close>

lemma split_no_separator: "c \<notin> set s \<Longrightarrow> split s c = [s]"
  by (induction s) auto

lemma split_at_separator: "c \<notin> set a \<Longrightarrow> split (a @ c # rest) c = a # split rest c"
  by (induction a) auto

lemma split_nonempty: "split s c \<noteq> []"
  by (induction s) (auto split: list.splits)

lemma hd_split: "hd (split s c) = takeWhile (\<lambda>x. x \<noteq> c) s"
proof (induction s)
  case Nil
  then show ?case by simp
next
  case (Cons x xs)
  then show ?case using split_nonempty[of xs c]
    by (cases "split xs c") auto
qed

lemma split_detached:
  assumes "0x2E \<notin> set h" and "0x2E \<notin> set s"
  shows "split (h @ js ''..'' @ s) 0x2E = [h, [], s]"
proof -
  have e: "h @ js ''..'' @ s = h @ 0x2E # (0x2E # s)" by (simp add: js_def)
  have "split (0x2E # s) 0x2E = [[], s]"
    using split_no_separator[OF assms(2)] by simp
  then show ?thesis
    unfolding e by (simp only: split_at_separator[OF assms(1)])
qed

lemma sign_then_verify_general:
  fixes lib :: "('tid, 'jwk) library"
  defines "header signer \<equiv> Obj [(js ''alg'', Str (algorithm signer)), (js ''kid'', Str (keyId signer))]"
  defines "h64 signer \<equiv> object_toBase64Url lib (header signer)"
  defines "toSign signer payload \<equiv>
             string_toUint8Array lib (h64 signer @ js ''.'' @ uint8Array_toBase64Url lib payload)"
  assumes signer: "getSigner did = Inr signer"
    and alg: "algorithm signer \<noteq> []" and kid: "keyId signer \<noteq> []"
    and signs: "sign signer (toSign signer payload) = Inr signatureBytes"
    and dots: "0x2E \<notin> set (h64 signer)" "0x2E \<notin> set (uint8Array_toBase64Url lib signatureBytes)"
    and header: "base64Url_toObject lib (h64 signer) = Inr (header signer)"
    and sig: "base64Url_toUint8Array lib (uint8Array_toBase64Url lib signatureBytes) = Inr signatureBytes"
    and resolver: "DidResolver_dereference lib (keyId signer) = Inr (VerificationMethod key)"
      "isPublicJwk lib key"
    and valid: "keyManager_verify lib key (toSign signer payload) signatureBytes = Inr True"
  shows "Crypto_sign lib did payload True =
           Inr (h64 signer @ js ''..'' @ uint8Array_toBase64Url lib signatureBytes) \<and>
         Crypto_verify lib (Str (h64 signer @ js ''..'' @ uint8Array_toBase64Url lib signatureBytes))
           (Some payload) = Inr (takeWhile (\<lambda>c. c \<noteq> 0x23) (keyId signer))"
proof -
  have s: "Crypto_sign lib did payload True =
      Inr (h64 signer @ js ''..'' @ uint8Array_toBase64Url lib signatureBytes)"
    using signer signs
    by (simp add: Crypto_sign_def call_def Let_def h64_def header_def toSign_def)
  have ne: "js ''alg'' \<noteq> js ''kid''" by (simp add: js_def)
  have props: "get_prop (header signer) (js ''alg'') = Inr (Str (algorithm signer))"
    "get_prop (header signer) (js ''kid'') = Inr (Str (keyId signer))"
    using ne by (simp_all add: header_def)
  have v: "Crypto_verify lib (Str (h64 signer @ js ''..'' @ uint8Array_toBase64Url lib signatureBytes))
      (Some payload) = Inr (takeWhile (\<lambda>c. c \<noteq> 0x23) (keyId signer))"
    unfolding Crypto_verify_def
    using alg kid header sig resolver valid[unfolded toSign_def]
    by (simp add: split_detached[OF dots] props bind_def call_def Let_def hd_split)
  from s v show ?thesis by simp
qed

subsection \<open>The stand-in\<close>

lemma b64_alphabet:
  "base64url_alphabet = [
     0x41, 0x42, 0x43, 0x44, 0x45, 0x46, 0x47, 0x48, 0x49, 0x4A, 0x4B, 0x4C, 0x4D, 0x4E,
     0x4F, 0x50, 0x51, 0x52, 0x53, 0x54, 0x55, 0x56, 0x57, 0x58, 0x59, 0x5A, 0x61,
     0x62, 0x63, 0x64, 0x65, 0x66, 0x67, 0x68, 0x69, 0x6A, 0x6B, 0x6C, 0x6D, 0x6E,
     0x6F, 0x70, 0x71, 0x72, 0x73, 0x74, 0x75, 0x76, 0x77, 0x78, 0x79, 0x7A, 0x30,
     0x31, 0x32, 0x33, 0x34, 0x35, 0x36, 0x37, 0x38, 0x39, 0x2D, 0x5F]"
  by (simp add: base64url_alphabet_def js_def)

lemma b64_length: "length base64url_alphabet = 64"
  by (simp add: b64_alphabet)

lemma b64_distinct: "distinct base64url_alphabet"
  by (simp add: b64_alphabet)

lemma b64_no_dot: "0x2E \<notin> set base64url_alphabet"
  by (simp add: b64_alphabet)

lemma index_in_nth:
  assumes "distinct xs" and "k < length xs"
  shows "index_in xs (xs ! k) = k"
proof -
  have "takeWhile (\<lambda>a. a \<noteq> xs ! k) xs = take k xs"
  proof (rule takeWhile_eq_take_P_nth)
    fix i assume "i < k" "i < length xs"
    with assms show "xs ! i \<noteq> xs ! k" by (simp add: nth_eq_iff_index_eq)
  next
    show "\<not> xs ! k \<noteq> xs ! k" by simp
  qed
  then show ?thesis using assms(2) by (simp add: index_in_def)
qed


lemma b64_index: "k < 64 \<Longrightarrow> index_in base64url_alphabet (base64url_alphabet ! k) = k"
  by (rule index_in_nth) (simp_all add: b64_distinct b64_length)

lemma b64_member: "k < 64 \<Longrightarrow> base64url_alphabet ! k \<in> set base64url_alphabet"
  by (simp add: b64_length)

lemma set_example_base64url: "set (example_base64url b) \<subseteq> set base64url_alphabet"
proof (induction b rule: example_base64url.induct)
  case 1
  then show ?case by simp
next
  case (2 a)
  have "unat a < 256" using unsigned_less[of a, where ?'a=nat] by simp
  then show ?case by (simp add: Let_def b64_member)
next
  case (3 a b)
  have "unat a < 256" "unat b < 256" using unsigned_less[of a, where ?'a=nat] unsigned_less[of b, where ?'a=nat] by simp_all
  then show ?case by (simp add: Let_def b64_member)
next
  case (4 a b c rest)
  have "unat a < 256" "unat b < 256" "unat c < 256"
    using unsigned_less[of a, where ?'a=nat] unsigned_less[of b, where ?'a=nat]
      unsigned_less[of c, where ?'a=nat] by simp_all
  then show ?case using 4 by (simp add: Let_def b64_member)
qed

lemma example_base64url_no_dot: "0x2E \<notin> set (example_base64url b)"
  using set_example_base64url[of b] b64_no_dot by blast

lemma div_mod_digit:
  fixes k m r :: nat
  assumes "r < m"
  shows "(k * m + r) div m = k" and "(k * m + r) mod m = r"
  using assms by simp_all

lemma byte3:
  fixes x y z :: nat
  assumes "x < 256" "y < 256" "z < 256"
  defines "n \<equiv> x * 65536 + y * 256 + z"
  shows "n div 262144 * 4 + n div 4096 mod 64 div 16 = x"
    and "n div 4096 mod 64 mod 16 * 16 + n div 64 mod 64 div 4 = y"
    and "n div 64 mod 64 mod 4 * 64 + n mod 64 = z"
    and "n div 262144 < 64" "n div 4096 mod 64 < 64" "n div 64 mod 64 < 64" "n mod 64 < 64"
proof -
  define a b c d e f where "a = x div 4" and "b = x mod 4" and "c = y div 16" and "d = y mod 16"
    and "e = z div 64" and "f = z mod 64"
  have x: "x = a * 4 + b" and y: "y = c * 16 + d" and z: "z = e * 64 + f"
    by (simp_all add: a_def b_def c_def d_def e_def f_def)
  have bounds: "a < 64" "b < 4" "c < 16" "d < 16" "e < 4" "f < 64"
    using assms(1-3) by (simp_all add: a_def b_def c_def d_def e_def f_def less_mult_imp_div_less)
  define s2 s3 where "s2 = b * 16 + c" and "s3 = d * 4 + e"
  have s: "s2 < 64" "s3 < 64" using bounds by (simp_all add: s2_def s3_def)
  have n: "n = ((a * 64 + s2) * 64 + s3) * 64 + f"
    unfolding n_def x y z s2_def s3_def by (simp add: algebra_simps)
  have m64: "n mod 64 = f" unfolding n by (rule div_mod_digit(2)[OF bounds(6)])
  have d64: "n div 64 = (a * 64 + s2) * 64 + s3" unfolding n by (rule div_mod_digit(1)[OF bounds(6)])
  have d4096: "n div 4096 = a * 64 + s2"
  proof -
    have "n div 4096 = n div 64 div 64" by (simp add: div_mult2_eq[symmetric])
    then show ?thesis unfolding d64 by (simp only: div_mod_digit(1)[OF s(2)])
  qed
  have d262144: "n div 262144 = a"
  proof -
    have "n div 262144 = n div 4096 div 64" by (simp add: div_mult2_eq[symmetric])
    then show ?thesis unfolding d4096 by (simp only: div_mod_digit(1)[OF s(1)])
  qed
  have p2: "n div 4096 mod 64 = s2" unfolding d4096 by (rule div_mod_digit(2)[OF s(1)])
  have p3: "n div 64 mod 64 = s3" unfolding d64 by (rule div_mod_digit(2)[OF s(2)])
  show "n div 262144 * 4 + n div 4096 mod 64 div 16 = x"
    unfolding d262144 p2 s2_def x using bounds by simp
  show "n div 4096 mod 64 mod 16 * 16 + n div 64 mod 64 div 4 = y"
    unfolding p2 p3 s2_def s3_def y using bounds by simp
  show "n div 64 mod 64 mod 4 * 64 + n mod 64 = z"
    unfolding p3 m64 s3_def z using bounds by simp
  show "n div 262144 < 64" unfolding d262144 by (rule bounds)
  show "n div 4096 mod 64 < 64" "n div 64 mod 64 < 64" "n mod 64 < 64" by simp_all
qed

lemma byte2:
  fixes x y :: nat
  assumes "x < 256" "y < 256"
  defines "n \<equiv> x * 256 + y"
  shows "n div 1024 * 4 + n div 16 mod 64 div 16 = x"
    and "n div 16 mod 64 mod 16 * 16 + n mod 16 * 4 div 4 = y"
    and "n div 1024 < 64" "n div 16 mod 64 < 64" "n mod 16 * 4 < 64"
proof -
  define a b c d where "a = x div 4" and "b = x mod 4" and "c = y div 16" and "d = y mod 16"
  have x: "x = a * 4 + b" and y: "y = c * 16 + d"
    by (simp_all add: a_def b_def c_def d_def)
  have bounds: "a < 64" "b < 4" "c < 16" "d < 16"
    using assms(1-2) by (simp_all add: a_def b_def c_def d_def less_mult_imp_div_less)
  define s2 where "s2 = b * 16 + c"
  have s: "s2 < 64" using bounds by (simp add: s2_def)
  have n: "n = (a * 64 + s2) * 16 + d"
    unfolding n_def x y s2_def by (simp add: algebra_simps)
  have m16: "n mod 16 = d" unfolding n by (rule div_mod_digit(2)[OF bounds(4)])
  have d16: "n div 16 = a * 64 + s2" unfolding n by (rule div_mod_digit(1)[OF bounds(4)])
  have d1024: "n div 1024 = a"
  proof -
    have "n div 1024 = n div 16 div 64" by (simp add: div_mult2_eq[symmetric])
    then show ?thesis unfolding d16 by (simp only: div_mod_digit(1)[OF s])
  qed
  have p2: "n div 16 mod 64 = s2" unfolding d16 by (rule div_mod_digit(2)[OF s])
  show "n div 1024 * 4 + n div 16 mod 64 div 16 = x"
    unfolding d1024 p2 s2_def x using bounds by simp
  show "n div 16 mod 64 mod 16 * 16 + n mod 16 * 4 div 4 = y"
    unfolding p2 m16 s2_def y using bounds by simp
  show "n div 1024 < 64" unfolding d1024 by (rule bounds)
  show "n div 16 mod 64 < 64" by simp
  show "n mod 16 * 4 < 64" unfolding m16 using bounds by simp
qed

lemma byte1:
  fixes x :: nat
  assumes "x < 256"
  shows "x div 4 * 4 + x mod 4 * 16 div 16 = x" and "x div 4 < 64" "x mod 4 * 16 < 64"
proof -
  have "x mod 4 < 4" by simp
  then show "x mod 4 * 16 < 64" by simp
  show "x div 4 < 64" using assms by (simp add: less_mult_imp_div_less)
  show "x div 4 * 4 + x mod 4 * 16 div 16 = x" by simp
qed

lemma unat_byte: "unat (a :: 8 word) < 256"
  using unsigned_less[of a, where ?'a=nat] by simp

lemma sextets_example_base64url:
  "sextets_bytes (map (index_in base64url_alphabet) (example_base64url b)) = b"
proof (induction b rule: example_base64url.induct)
  case 1
  then show ?case by simp
next
  case (2 a)
  note b = byte1[OF unat_byte[of a]]
  have "unat a div 4 * 4 + unat a mod 4 = unat a" by simp
  then show ?case by (simp add: Let_def b64_index b del: of_nat_add of_nat_mult)
next
  case (3 a b)
  note b = byte2[OF unat_byte[of a] unat_byte[of b]]
  from b(2) have "(unat a * 256 + unat b) div 16 mod 64 mod 16 * 16 + (unat a * 256 + unat b) mod 16
      = unat b" by simp
  then show ?case by (simp add: Let_def b64_index b del: of_nat_add of_nat_mult)
next
  case (4 a b c rest)
  note b = byte3[OF unat_byte[of a] unat_byte[of b] unat_byte[of c]]
  show ?case using 4 by (simp add: Let_def b64_index b del: of_nat_add of_nat_mult)
qed

lemma example_base64url_roundtrip:
  "example_base64url_decode (example_base64url b) = Inr b"
proof -
  have "list_all (\<lambda>c. c \<in> set base64url_alphabet) (example_base64url b)"
    using set_example_base64url[of b] by (auto simp add: list_all_iff)
  then show ?thesis
    by (simp add: example_base64url_decode_def sextets_example_base64url)
qed

lemma example_utf8_ascii:
  assumes "list_all (\<lambda>c. c < 0x80) s"
  shows "map ucast (example_utf8 s) = s"
  using assms
proof (induction s)
  case Nil
  then show ?case by (simp add: example_utf8_def)
next
  case (Cons c s)
  from Cons.prems have c: "c < 0x80" and s: "list_all (\<lambda>c. c < 0x80) s" by simp_all
  from c have u: "unat c < 128" by (simp add: word_less_nat_alt)
  have "(ucast (ucast c :: 8 word) :: 16 word) = c"
    by (rule word_unat_eq_iff[THEN iffD2])
       (use u in \<open>simp add: unsigned_ucast_eq take_bit_eq_mod unat_mod_distrib\<close>)
  with Cons.IH[OF s] u show ?case
    by (simp add: example_utf8_def Let_def)
qed

lemma parse_known_first: "parse_known (v # rest) (stringify v) = Inr v"
  by (simp add: parse_known_def)

lemma example_header_roundtrip:
  assumes "list_all (\<lambda>c. c < 0x80) (stringify v)"
  shows "base64Url_toObject (example_lib (v # rest)) (object_toBase64Url (example_lib (v # rest)) v) = Inr v"
  by (simp add: example_lib_def example_base64url_roundtrip example_utf8_ascii[OF assms] parse_known_first)

subsection \<open>Signing and verifying\<close>

text \<open>
  Claim C3, as amended. For every signer whose algorithm and key id are not empty, and
  every payload: when the dependencies behave as a codec and a signature scheme do
  (base64url text has no dot, decoding gives back what was encoded, the resolver
  dereferences the key id to a public key, and that key accepts what the signer
  signed), signing in detached mode gives \<open>headerB64 + ".." + sigB64\<close>, and verifying it
  with the same payload as the detached payload succeeds and returns the key id up to
  its first \<open>#\<close>.
\<close>

theorem sign_then_verify:
  fixes lib :: "('tid, 'jwk) library"
  defines "header signer \<equiv> Obj [(js ''alg'', Str (algorithm signer)), (js ''kid'', Str (keyId signer))]"
  defines "h64 signer \<equiv> object_toBase64Url lib (header signer)"
  defines "toSign signer payload \<equiv>
             string_toUint8Array lib (h64 signer @ js ''.'' @ uint8Array_toBase64Url lib payload)"
  assumes signer: "getSigner did = Inr signer"
    and alg: "algorithm signer \<noteq> []" and kid: "keyId signer \<noteq> []"
    and signs: "sign signer (toSign signer payload) = Inr signatureBytes"
    and dots: "0x2E \<notin> set (h64 signer)" "0x2E \<notin> set (uint8Array_toBase64Url lib signatureBytes)"
    and header: "base64Url_toObject lib (h64 signer) = Inr (header signer)"
    and sig: "base64Url_toUint8Array lib (uint8Array_toBase64Url lib signatureBytes) = Inr signatureBytes"
    and resolver: "DidResolver_dereference lib (keyId signer) = Inr (VerificationMethod key)"
      "isPublicJwk lib key"
    and valid: "keyManager_verify lib key (toSign signer payload) signatureBytes = Inr True"
  shows "Crypto_sign lib did payload True =
           Inr (h64 signer @ js ''..'' @ uint8Array_toBase64Url lib signatureBytes) \<and>
         Crypto_verify lib (Str (h64 signer @ js ''..'' @ uint8Array_toBase64Url lib signatureBytes))
           (Some payload) = Inr (takeWhile (\<lambda>c. c \<noteq> 0x23) (keyId signer))"
  unfolding h64_def header_def
  using sign_then_verify_general[OF signer alg kid signs[unfolded toSign_def h64_def header_def]
      dots[unfolded h64_def header_def] header[unfolded h64_def header_def] sig resolver
      valid[unfolded toSign_def h64_def header_def]]
  by simp

lemma stringify_header:
  \<open>stringify (Obj [(js ''alg'', Str (js ''EdDSA'')), (js ''kid'', Str (js ''did:example:alice#0''))]) =
     js ''{"alg":"EdDSA","kid":"did:example:alice#0"}''\<close>
  \<open>stringify (Obj [(js ''alg'', Str (js ''EdDSA'')), (js ''kid'', Str [])]) =
     js ''{"alg":"EdDSA","kid":""}''\<close>
  \<open>stringify (Obj [(js ''alg'', Str (js ''EdDSA'')), (js ''kid'', Str (js ''did:example:multibase#0''))]) =
     js ''{"alg":"EdDSA","kid":"did:example:multibase#0"}''\<close>
  by (simp_all add: quote_def escape_def js_def)

lemma example_alice_key:
  "DidResolver_dereference (example_lib known) (js ''did:example:alice#0'') =
     Inr (VerificationMethod (example_key (js ''alice'')))"
  "isPublicJwk (example_lib known) (example_key x)"
  "keyManager_verify (example_lib known) (example_key x) data (example_signature x data) = Inr True"
  by (simp_all add: example_lib_def example_dereference_def example_isPublicJwk_def example_key_def
      example_verify_def js_def)

theorem sign_then_verify_witness:
  "\<exists>jws. Crypto_sign (example_lib [Obj [(js ''alg'', Str (js ''EdDSA'')),
                                        (js ''kid'', Str (js ''did:example:alice#0''))]])
           (example_did (js ''did:example:alice'') (js ''EdDSA'') (js ''did:example:alice#0'') (js ''alice''))
           [1, 2, 3] True = Inr jws \<and>
         Crypto_verify (example_lib [Obj [(js ''alg'', Str (js ''EdDSA'')),
                                          (js ''kid'', Str (js ''did:example:alice#0''))]])
           (Str jws) (Some [1, 2, 3]) = Inr (js ''did:example:alice'')"
proof -
  let ?hdr = "Obj [(js ''alg'', Str (js ''EdDSA'')), (js ''kid'', Str (js ''did:example:alice#0''))]"
  let ?lib = "example_lib [?hdr] :: (example_tid, jsval) library"
  let ?signer = "example_signer (js ''EdDSA'') (js ''did:example:alice#0'') (js ''alice'')"
  let ?did = "example_did (js ''did:example:alice'') (js ''EdDSA'') (js ''did:example:alice#0'') (js ''alice'')"
  let ?data = "string_toUint8Array ?lib (object_toBase64Url ?lib ?hdr @ js ''.'' @
                 uint8Array_toBase64Url ?lib [1, 2, 3])"
  let ?sig = "example_signature (js ''alice'') ?data"
  have fields: "algorithm ?signer = js ''EdDSA''" "keyId ?signer = js ''did:example:alice#0''"
    by (simp_all add: example_signer_def)
  have 1: "getSigner ?did = Inr ?signer" by (simp add: example_did_def)
  have 2: "js ''EdDSA'' \<noteq> []" "js ''did:example:alice#0'' \<noteq> []" by (simp_all add: js_def)
  have 3: "sign ?signer ?data = Inr ?sig" by (simp add: example_signer_def)
  have 4: "0x2E \<notin> set (object_toBase64Url ?lib ?hdr)"
    "0x2E \<notin> set (uint8Array_toBase64Url ?lib ?sig)"
    by (simp_all add: example_lib_def example_base64url_no_dot)
  have ascii: "list_all (\<lambda>c. c < 0x80) (stringify ?hdr)"
    unfolding stringify_header by (simp add: js_def)
  have 5: "base64Url_toObject ?lib (object_toBase64Url ?lib ?hdr) = Inr ?hdr"
    by (rule example_header_roundtrip[OF ascii])
  have 6: "base64Url_toUint8Array ?lib (uint8Array_toBase64Url ?lib ?sig) = Inr ?sig"
    by (simp add: example_lib_def example_base64url_roundtrip)
  note 7 = example_alice_key(1)[of "[?hdr]"] example_alice_key(2)[of "[?hdr]" "js ''alice''"]
  note 8 = example_alice_key(3)[of "[?hdr]" "js ''alice''" ?data]
  have tw: "takeWhile (\<lambda>c. c \<noteq> 0x23) (js ''did:example:alice#0'') = js ''did:example:alice''"
    by (simp add: js_def)
  from sign_then_verify[of ?did ?signer ?lib "[1, 2, 3]" ?sig "example_key (js ''alice'')",
      unfolded fields, OF 1 2 3 4 5 6 7 8]
  show ?thesis unfolding tw by blast
qed

lemma js_eq_Nil: "(js s = []) = (s = [])"
  by (simp add: js_def)

lemma example_headers:
  "object_toBase64Url (example_lib known) (Obj [(js ''alg'', Str (js ''EdDSA'')), (js ''kid'', Str [])]) =
     js ''eyJhbGciOiJFZERTQSIsImtpZCI6IiJ9''"
  "object_toBase64Url (example_lib known)
     (Obj [(js ''alg'', Str (js ''EdDSA'')), (js ''kid'', Str (js ''did:example:multibase#0''))]) =
     js ''eyJhbGciOiJFZERTQSIsImtpZCI6ImRpZDpleGFtcGxlOm11bHRpYmFzZSMwIn0''"
  "uint8Array_toBase64Url (example_lib known) [1, 2, 3] = js ''AQID''"
  unfolding example_lib_def library.simps stringify_header
  by (simp_all add: example_utf8_def js_def b64_alphabet)

text \<open>
  The claim as stated holds for no signer whose key id is empty, although the resolver
  gives its public key and the key accepts the signature: the header is
  \<open>{"alg":"EdDSA","kid":""}\<close>, and \<open>verify\<close> refuses it at the test \<open>!jwsHeader.kid\<close>.
\<close>

theorem sign_then_verify_empty_kid:
  \<open>DidResolver_dereference (example_lib [Obj [(js ''alg'', Str (js ''EdDSA'')), (js ''kid'', Str [])]]) []
     = Inr (VerificationMethod (example_key (js ''nobody''))) \<and>
   isPublicJwk (example_lib [Obj [(js ''alg'', Str (js ''EdDSA'')), (js ''kid'', Str [])]])
     (example_key (js ''nobody'')) \<and>
   keyManager_verify (example_lib [Obj [(js ''alg'', Str (js ''EdDSA'')), (js ''kid'', Str [])]])
     (example_key (js ''nobody''))
     (example_utf8 (js ''eyJhbGciOiJFZERTQSIsImtpZCI6IiJ9.AQID''))
     (example_signature (js ''nobody'') (example_utf8 (js ''eyJhbGciOiJFZERTQSIsImtpZCI6IiJ9.AQID'')))
     = Inr True \<and>
   Crypto_sign (example_lib [Obj [(js ''alg'', Str (js ''EdDSA'')), (js ''kid'', Str [])]])
     (example_did (js ''did:example:nobody'') (js ''EdDSA'') [] (js ''nobody'')) [1, 2, 3] True
     = Inr (js ''eyJhbGciOiJFZERTQSIsImtpZCI6IiJ9'' @ js ''..'' @
            example_base64url (example_signature (js ''nobody'')
              (example_utf8 (js ''eyJhbGciOiJFZERTQSIsImtpZCI6IiJ9.AQID'')))) \<and>
   Crypto_verify (example_lib [Obj [(js ''alg'', Str (js ''EdDSA'')), (js ''kid'', Str [])]])
     (Str (js ''eyJhbGciOiJFZERTQSIsImtpZCI6IiJ9'' @ js ''..'' @
           example_base64url (example_signature (js ''nobody'')
             (example_utf8 (js ''eyJhbGciOiJFZERTQSIsImtpZCI6IiJ9.AQID'')))))
     (Some [1, 2, 3])
     = Inl (InvalidJws (js
         ''Signature verification failed: Missing or invalid key ID ("kid") in JWS header''))\<close>
proof -
  let ?hdr = "Obj [(js ''alg'', Str (js ''EdDSA'')), (js ''kid'', Str [])]"
  let ?lib = "example_lib [?hdr] :: (example_tid, jsval) library"
  let ?h = "js ''eyJhbGciOiJFZERTQSIsImtpZCI6IiJ9''"
  let ?data = "example_utf8 (js ''eyJhbGciOiJFZERTQSIsImtpZCI6IiJ9.AQID'')"
  let ?s = "example_base64url (example_signature (js ''nobody'') ?data)"
  have a: "DidResolver_dereference ?lib [] = Inr (VerificationMethod (example_key (js ''nobody'')))"
    by (simp add: example_lib_def example_dereference_def js_def)
  note b = example_alice_key(2)[of "[?hdr]" "js ''nobody''"]
  note c = example_alice_key(3)[of "[?hdr]" "js ''nobody''" ?data]
  have cat: "?h @ js ''.'' @ js ''AQID'' = js ''eyJhbGciOiJFZERTQSIsImtpZCI6IiJ9.AQID''"
    by (simp add: js_def)
  have d: "Crypto_sign ?lib (example_did (js ''did:example:nobody'') (js ''EdDSA'') [] (js ''nobody''))
      [1, 2, 3] True = Inr (?h @ js ''..'' @ ?s)"
    unfolding Crypto_sign_def call_def Let_def example_did_def example_signer_def
    by (simp add: example_headers cat) (simp add: example_lib_def)
  have dots: "0x2E \<notin> set ?h" "0x2E \<notin> set ?s"
    by (simp add: js_def) (rule example_base64url_no_dot)
  have ascii: "list_all (\<lambda>c. c < 0x80) (stringify ?hdr)"
    unfolding stringify_header by (simp add: js_def)
  have hdr: "base64Url_toObject ?lib ?h = Inr ?hdr"
    using example_header_roundtrip[OF ascii, of "[]"] unfolding example_headers .
  have ne: "js ''alg'' \<noteq> js ''kid''" by (simp add: js_def)
  have e: \<open>Crypto_verify ?lib (Str (?h @ js ''..'' @ ?s)) (Some [1, 2, 3]) =
      Inl (InvalidJws (js ''Signature verification failed: Missing or invalid key ID ("kid") in JWS header''))\<close>
    unfolding Crypto_verify_def
    using ne by (simp add: split_detached[OF dots] hdr bind_def InvalidJws_new_def js_eq_Nil)
  from a b c d e show ?thesis by simp
qed

text \<open>
  Claim C1. Seven of the eight failures of \<open>verify\<close> throw \<open>InvalidJws\<close>, each with its
  own message. The eighth does not: when the key id dereferences to a verification
  method whose \<open>publicKeyJwk\<close> is not a public JWK, \<open>verify\<close> throws a plain \<open>Error\<close>, so
  the failure is not of the \<open>InvalidJws\<close> type.
\<close>

theorem Crypto_verify_key_without_publicKeyJwk:
  assumes "split jws 0x2E = [h, p, s]"
    and "detachedPayload = None \<or> p = []"
    and "base64Url_toObject lib h = Inr header"
    and "get_prop header (js ''alg'') = Inr (Str alg)" and "alg \<noteq> []"
    and "get_prop header (js ''kid'') = Inr (Str kid)" and "kid \<noteq> []"
    and "DidResolver_dereference lib kid = Inr (VerificationMethod key)"
    and "\<not> isPublicJwk lib key"
  shows "Crypto_verify lib (Str jws) detachedPayload =
           Inl (Error (js ''Signature verification failed: Expected kid in JWS header to dereference to a DID Document Verification Method with publicKeyJwk'')) \<and>
         (\<forall>m. Crypto_verify lib (Str jws) detachedPayload \<noteq> Inl (InvalidJws m))"
proof -
  have "Crypto_verify lib (Str jws) detachedPayload =
      Inl (Error (js ''Signature verification failed: Expected kid in JWS header to dereference to a DID Document Verification Method with publicKeyJwk''))"
    unfolding Crypto_verify_def
    using assms by (auto simp add: bind_def call_def Let_def)
  then show ?thesis by simp
qed

theorem Crypto_verify_key_without_publicKeyJwk_witness:
  "Crypto_verify
     (example_lib [Obj [(js ''alg'', Str (js ''EdDSA'')), (js ''kid'', Str (js ''did:example:multibase#0''))]])
     (Str (js ''eyJhbGciOiJFZERTQSIsImtpZCI6ImRpZDpleGFtcGxlOm11bHRpYmFzZSMwIn0..'')) None =
   Inl (Error (js ''Signature verification failed: Expected kid in JWS header to dereference to a DID Document Verification Method with publicKeyJwk''))"
proof -
  let ?hdr = "Obj [(js ''alg'', Str (js ''EdDSA'')), (js ''kid'', Str (js ''did:example:multibase#0''))]"
  let ?lib = "example_lib [?hdr] :: (example_tid, jsval) library"
  let ?h = "js ''eyJhbGciOiJFZERTQSIsImtpZCI6ImRpZDpleGFtcGxlOm11bHRpYmFzZSMwIn0''"
  have 1: "split (js ''eyJhbGciOiJFZERTQSIsImtpZCI6ImRpZDpleGFtcGxlOm11bHRpYmFzZSMwIn0..'') 0x2E = [?h, [], []]"
    by (simp add: js_def)
  have ascii: "list_all (\<lambda>c. c < 0x80) (stringify ?hdr)"
    unfolding stringify_header by (simp add: js_def)
  have 3: "base64Url_toObject ?lib ?h = Inr ?hdr"
    using example_header_roundtrip[OF ascii, of "[]"] unfolding example_headers .
  have ne: "js ''alg'' \<noteq> js ''kid''" by (simp add: js_def)
  have 4: "get_prop ?hdr (js ''alg'') = Inr (Str (js ''EdDSA''))"
    "get_prop ?hdr (js ''kid'') = Inr (Str (js ''did:example:multibase#0''))"
    using ne by simp_all
  have 5: "js ''EdDSA'' \<noteq> []" "js ''did:example:multibase#0'' \<noteq> []" by (simp_all add: js_def)
  have 6: "DidResolver_dereference ?lib (js ''did:example:multibase#0'') = Inr (VerificationMethod Undefined)"
    by (simp add: example_lib_def example_dereference_def js_def)
  have 7: "\<not> isPublicJwk ?lib Undefined"
    by (simp add: example_lib_def example_isPublicJwk_def)
  from Crypto_verify_key_without_publicKeyJwk[OF 1 _ 3 4(1) 5(1) 4(2) 5(2) 6 7, of None]
  show ?thesis by simp
qed

subsection \<open>DapRegistration\<close>

text \<open>What alice signs, the stand-in accepts as hers, whatever the payload.\<close>

lemma example_alice_signs:
  fixes known :: "jsval list"
  defines "lib \<equiv> (example_lib known :: (example_tid, jsval) library)"
  assumes header: "base64Url_toObject lib (object_toBase64Url lib example_header) = Inr example_header"
  shows "\<exists>jws. Crypto_sign lib example_alice payload True = Inr jws \<and>
               Crypto_verify lib (Str jws) (Some payload) = Inr (js ''did:example:alice'')"
proof -
  let ?signer = "example_signer (js ''EdDSA'') (js ''did:example:alice#0'') (js ''alice'')"
  let ?data = "string_toUint8Array lib (object_toBase64Url lib example_header @ js ''.'' @
                 uint8Array_toBase64Url lib payload)"
  let ?sig = "example_signature (js ''alice'') ?data"
  have fields: "algorithm ?signer = js ''EdDSA''" "keyId ?signer = js ''did:example:alice#0''"
    by (simp_all add: example_signer_def)
  have hdr: "Obj [(js ''alg'', Str (js ''EdDSA'')), (js ''kid'', Str (js ''did:example:alice#0''))]
      = example_header" by (simp add: example_header_def)
  have 1: "getSigner example_alice = Inr ?signer" by (simp add: example_alice_def example_did_def)
  have 2: "js ''EdDSA'' \<noteq> []" "js ''did:example:alice#0'' \<noteq> []" by (simp_all add: js_def)
  have 3: "sign ?signer ?data = Inr ?sig" by (simp add: example_signer_def)
  have 4: "0x2E \<notin> set (object_toBase64Url lib example_header)"
    "0x2E \<notin> set (uint8Array_toBase64Url lib ?sig)"
    by (simp_all add: lib_def example_lib_def example_base64url_no_dot)
  have 6: "base64Url_toUint8Array lib (uint8Array_toBase64Url lib ?sig) = Inr ?sig"
    by (simp add: lib_def example_lib_def example_base64url_roundtrip)
  note 7 = example_alice_key(1)[of known] example_alice_key(2)[of known "js ''alice''"]
  note 8 = example_alice_key(3)[of known "js ''alice''" ?data]
  have tw: "takeWhile (\<lambda>c. c \<noteq> 0x23) (js ''did:example:alice#0'') = js ''did:example:alice''"
    by (simp add: js_def)
  from sign_then_verify_general[of example_alice ?signer lib payload ?sig "example_key (js ''alice'')",
      unfolded fields hdr, OF 1 2 3 4 header 6 7[folded lib_def] 8[folded lib_def]]
  show ?thesis unfolding tw by blast
qed

lemma example_header_ascii: "list_all (\<lambda>c. c < 0x80) (stringify example_header)"
  unfolding example_header_def stringify_header by (simp add: js_def)

lemma example_header_second:
  assumes "stringify u \<noteq> stringify example_header"
  shows "base64Url_toObject (example_lib [u, example_header])
           (object_toBase64Url (example_lib [u, example_header]) example_header) = Inr example_header"
  using assms
  by (simp add: example_lib_def example_base64url_roundtrip example_utf8_ascii[OF example_header_ascii]
      parse_known_def)

text \<open>The payload of a registration of alice's is serializable, so its digest exists.\<close>

lemma example_digest:
  "\<exists>digest. computeDigest (example_lib known) ((example_unsigned did)\<lparr>reg_signature := s\<rparr>) = Inr digest \<and>
     computeDigest (example_lib known) (example_unsigned did) = Inr digest"
  by (simp add: computeDigest_def Crypto_digest_def call_def example_lib_def canonicalize_spec_def
      example_unsigned_def DapRegistration_new_def RegistrationId_toString_def)

text \<open>
  Claim C5. \<open>verify\<close> of a registration without a signature throws
  \<open>InvalidDapRegistration\<close> with the cause \<open>Signature is missing\<close>. Otherwise it computes
  the digest of \<open>{id, handle, did, domain}\<close> and verifies the signature as a detached
  signature over it: what either of them throws is thrown on, a signer other than the
  registration's \<open>did\<close> gives \<open>InvalidDapRegistration\<close> with another cause, and the signer
  is returned when it is the registration's \<open>did\<close>. The two causes differ.
\<close>

theorem DapRegistration_verify_causes:
  "(reg_signature r = Undefined \<longrightarrow>
      DapRegistration_verify lib r =
        Inl (InvalidDapRegistration (js ''Invalid DAP Registration: Signature is missing''))) \<and>
   (reg_signature r \<noteq> Undefined \<and> computeDigest lib r = Inl e \<longrightarrow>
      DapRegistration_verify lib r = Inl e) \<and>
   (reg_signature r \<noteq> Undefined \<and> computeDigest lib r = Inr digest \<and>
    Crypto_verify lib (reg_signature r) (Some digest) = Inl e \<longrightarrow>
      DapRegistration_verify lib r = Inl e) \<and>
   (reg_signature r \<noteq> Undefined \<and> computeDigest lib r = Inr digest \<and>
    Crypto_verify lib (reg_signature r) (Some digest) = Inr signerDid \<and> reg_did r \<noteq> Str signerDid \<longrightarrow>
      DapRegistration_verify lib r =
        Inl (InvalidDapRegistration (js
          ''Invalid DAP Registration: Expected registration to be signed by the specified DID''))) \<and>
   (reg_signature r \<noteq> Undefined \<and> computeDigest lib r = Inr digest \<and>
    Crypto_verify lib (reg_signature r) (Some digest) = Inr signerDid \<and> reg_did r = Str signerDid \<longrightarrow>
      DapRegistration_verify lib r = Inr signerDid) \<and>
   computeDigest lib r =
     Crypto_digest lib (Obj [(js ''id'', Str (RegistrationId_toString lib (reg_id r))),
                             (js ''handle'', reg_handle r), (js ''did'', reg_did r),
                             (js ''domain'', reg_domain r)]) \<and>
   js ''Invalid DAP Registration: Signature is missing'' \<noteq>
     js ''Invalid DAP Registration: Expected registration to be signed by the specified DID''"
proof -
  have "js ''Invalid DAP Registration: Signature is missing'' \<noteq>
     js ''Invalid DAP Registration: Expected registration to be signed by the specified DID''"
    by (simp add: js_def)
  moreover have "computeDigest lib r =
     Crypto_digest lib (Obj [(js ''id'', Str (RegistrationId_toString lib (reg_id r))),
                             (js ''handle'', reg_handle r), (js ''did'', reg_did r),
                             (js ''domain'', reg_domain r)])"
    by (simp add: computeDigest_def)
  ultimately show ?thesis
    by (auto simp add: DapRegistration_verify_def bind_def InvalidDapRegistration_new_def
        simp del: computeDigest_def)
qed

lemma example_sign_registration:
  assumes header: "base64Url_toObject (example_lib known)
      (object_toBase64Url (example_lib known) example_header) = Inr example_header"
  shows "\<exists>jws digest.
     DapRegistration_sign (example_lib known) (example_unsigned did) example_alice =
       Inr ((example_unsigned did)\<lparr>reg_signature := Str jws\<rparr>) \<and>
     computeDigest (example_lib known) ((example_unsigned did)\<lparr>reg_signature := Str jws\<rparr>) = Inr digest \<and>
     Crypto_verify (example_lib known) (Str jws) (Some digest) = Inr (js ''did:example:alice'')"
proof -
  from example_digest[where known=known and did=did]
  obtain digest where d: "computeDigest (example_lib known) (example_unsigned did) = Inr digest"
    by blast
  from example_alice_signs[OF header, of digest]
  obtain jws where j: "Crypto_sign (example_lib known) example_alice digest True = Inr jws"
    "Crypto_verify (example_lib known) (Str jws) (Some digest) = Inr (js ''did:example:alice'')"
    by blast
  have "computeDigest (example_lib known) ((example_unsigned did)\<lparr>reg_signature := Str jws\<rparr>) = Inr digest"
    using d by (simp add: computeDigest_def)
  moreover have "DapRegistration_sign (example_lib known) (example_unsigned did) example_alice =
       Inr ((example_unsigned did)\<lparr>reg_signature := Str jws\<rparr>)"
    using d j(1) by (simp add: DapRegistration_sign_def bind_def)
  ultimately show ?thesis using j(2) by blast
qed

lemma example_header_first:
  "base64Url_toObject (example_lib [example_header])
     (object_toBase64Url (example_lib [example_header]) example_header) = Inr example_header"
  by (rule example_header_roundtrip[OF example_header_ascii])

theorem DapRegistration_verify_causes_witness:
  "DapRegistration_verify (example_lib [example_header]) (example_unsigned (js ''did:example:alice'')) =
     Inl (InvalidDapRegistration (js ''Invalid DAP Registration: Signature is missing'')) \<and>
   (\<exists>r. DapRegistration_sign (example_lib [example_header]) (example_unsigned (js ''did:example:bob''))
           example_alice = Inr r \<and>
        DapRegistration_verify (example_lib [example_header]) r =
          Inl (InvalidDapRegistration (js
            ''Invalid DAP Registration: Expected registration to be signed by the specified DID''))) \<and>
   (\<exists>r. DapRegistration_sign (example_lib [example_header]) (example_unsigned (js ''did:example:alice''))
           example_alice = Inr r \<and>
        DapRegistration_verify (example_lib [example_header]) r = Inr (js ''did:example:alice''))"
proof -
  let ?lib = "example_lib [example_header] :: (example_tid, jsval) library"
  have u: "reg_signature (example_unsigned d) = Undefined" for d
    by (simp add: example_unsigned_def DapRegistration_new_def)
  have did: "reg_did ((example_unsigned d)\<lparr>reg_signature := s\<rparr>) = Str d" for d s
    by (simp add: example_unsigned_def DapRegistration_new_def)
  have a: "DapRegistration_verify ?lib (example_unsigned (js ''did:example:alice'')) =
     Inl (InvalidDapRegistration (js ''Invalid DAP Registration: Signature is missing''))"
    using DapRegistration_verify_causes[of "example_unsigned (js ''did:example:alice'')" ?lib] u
    by blast
  from example_sign_registration[OF example_header_first, of "js ''did:example:bob''"]
  obtain jb db where b: "DapRegistration_sign ?lib (example_unsigned (js ''did:example:bob'')) example_alice =
       Inr ((example_unsigned (js ''did:example:bob''))\<lparr>reg_signature := Str jb\<rparr>)"
     "computeDigest ?lib ((example_unsigned (js ''did:example:bob''))\<lparr>reg_signature := Str jb\<rparr>) = Inr db"
     "Crypto_verify ?lib (Str jb) (Some db) = Inr (js ''did:example:alice'')"
    by blast
  have ne: "Str (js ''did:example:bob'') \<noteq> Str (js ''did:example:alice'')" by (simp add: js_def)
  have b': "DapRegistration_verify ?lib ((example_unsigned (js ''did:example:bob''))\<lparr>reg_signature := Str jb\<rparr>) =
      Inl (InvalidDapRegistration (js
            ''Invalid DAP Registration: Expected registration to be signed by the specified DID''))"
    using DapRegistration_verify_causes[of "(example_unsigned (js ''did:example:bob''))\<lparr>reg_signature := Str jb\<rparr>"
        ?lib _ db "js ''did:example:alice''"] b(2,3) ne
    by (simp add: did)
  from example_sign_registration[OF example_header_first, of "js ''did:example:alice''"]
  obtain ja da where c: "DapRegistration_sign ?lib (example_unsigned (js ''did:example:alice'')) example_alice =
       Inr ((example_unsigned (js ''did:example:alice''))\<lparr>reg_signature := Str ja\<rparr>)"
     "computeDigest ?lib ((example_unsigned (js ''did:example:alice''))\<lparr>reg_signature := Str ja\<rparr>) = Inr da"
     "Crypto_verify ?lib (Str ja) (Some da) = Inr (js ''did:example:alice'')"
    by blast
  have c': "DapRegistration_verify ?lib ((example_unsigned (js ''did:example:alice''))\<lparr>reg_signature := Str ja\<rparr>) =
      Inr (js ''did:example:alice'')"
    using DapRegistration_verify_causes[of "(example_unsigned (js ''did:example:alice''))\<lparr>reg_signature := Str ja\<rparr>"
        ?lib _ da "js ''did:example:alice''"] c(2,3)
    by (simp add: did)
  from a b(1) b' c(1) c' show ?thesis by blast
qed

text \<open>
  Claim C4. \<open>toJSON\<close> gives the fields in the order \<open>id, handle, did, domain,
  signature\<close>. For every registration \<open>r\<close> that verifies, whose identifier is a TypeID of
  type \<open>reg\<close> that \<open>TypeID.fromString\<close> reads back from its text: parsing \<open>toJSON\<close> of \<open>r\<close>
  gives \<open>r\<close> again, so serializing the result gives the serialization of \<open>r\<close>; and so
  does parsing the JSON text, when \<open>JSON.parse\<close> reads back what \<open>JSON.stringify\<close> wrote.
\<close>

theorem parse_serialize_roundtrip:
  assumes valid: "DapRegistration_verify lib r = Inr signerDid"
    and id_roundtrip:
      "TypeID_fromString lib (Str (TypeID_toString lib (value_of (reg_id r)))) = Inr (value_of (reg_id r))"
    and reg: "TypeID_getType lib (value_of (reg_id r)) = js ''reg''"
  shows "toJSON lib r =
           Obj [(js ''id'', Str (RegistrationId_toString lib (reg_id r))), (js ''handle'', reg_handle r),
                (js ''did'', reg_did r), (js ''domain'', reg_domain r),
                (js ''signature'', reg_signature r)] \<and>
         DapRegistration_parse lib (toJSON lib r) = Inr r \<and>
         map_sum id (serialize lib) (DapRegistration_parse lib (toJSON lib r)) = Inr (serialize lib r) \<and>
         (JSON_parse lib (serialize lib r) = Inr (toJSON lib r) \<longrightarrow>
            DapRegistration_parse lib (Str (serialize lib r)) = Inr r \<and>
            map_sum id (serialize lib) (DapRegistration_parse lib (Str (serialize lib r))) =
              Inr (serialize lib r))"
proof -
  have keys: "js ''id'' \<noteq> js ''handle''" "js ''id'' \<noteq> js ''did''" "js ''id'' \<noteq> js ''domain''"
    "js ''id'' \<noteq> js ''signature''" "js ''handle'' \<noteq> js ''did''" "js ''handle'' \<noteq> js ''domain''"
    "js ''handle'' \<noteq> js ''signature''" "js ''did'' \<noteq> js ''domain''" "js ''did'' \<noteq> js ''signature''"
    "js ''domain'' \<noteq> js ''signature''"
    by (simp_all add: js_def)
  have props: "get_prop (toJSON lib r) (js ''id'') = Inr (Str (RegistrationId_toString lib (reg_id r)))"
    "get_prop (toJSON lib r) (js ''handle'') = Inr (reg_handle r)"
    "get_prop (toJSON lib r) (js ''did'') = Inr (reg_did r)"
    "get_prop (toJSON lib r) (js ''domain'') = Inr (reg_domain r)"
    "get_prop (toJSON lib r) (js ''signature'') = Inr (reg_signature r)"
    using keys keys[symmetric] by (simp_all add: toJSON_def)
  have rid: "RegistrationId_parse lib (Str (RegistrationId_toString lib (reg_id r))) = Inr (reg_id r)"
    using id_roundtrip reg by (simp add: RegistrationId_parse_def RegistrationId_toString_def)
  have new: "DapRegistration_new (reg_id r) (reg_handle r) (reg_did r) (reg_domain r) (reg_signature r) = r"
    by (simp add: DapRegistration_new_def)
  have after: "bind (get_prop (toJSON lib r) (js ''id'')) (\<lambda>id'.
     bind (RegistrationId_parse lib id') (\<lambda>rid.
     bind (get_prop (toJSON lib r) (js ''handle'')) (\<lambda>handle'.
     bind (get_prop (toJSON lib r) (js ''did'')) (\<lambda>did'.
     bind (get_prop (toJSON lib r) (js ''domain'')) (\<lambda>domain'.
     bind (get_prop (toJSON lib r) (js ''signature'')) (\<lambda>signature'.
     let registration = DapRegistration_new rid handle' did' domain' signature'
     in
     bind (DapRegistration_verify lib registration) (\<lambda>signerDid.
     Inr registration))))))) = Inr r"
    by (simp add: props rid bind_def new valid)
  have raw: "rawToRegistrationRequest lib (toJSON lib r) = Inr (toJSON lib r)"
    by (simp add: rawToRegistrationRequest_def toJSON_def)
  have obj: "DapRegistration_parse lib (toJSON lib r) = Inr r"
    unfolding DapRegistration_parse_def raw using after by (simp add: bind_def)
  have str: "DapRegistration_parse lib (Str (serialize lib r)) = Inr r"
    if "JSON_parse lib (serialize lib r) = Inr (toJSON lib r)"
  proof -
    have "rawToRegistrationRequest lib (Str (serialize lib r)) = Inr (toJSON lib r)"
      using that by (simp add: rawToRegistrationRequest_def)
    then show ?thesis
      unfolding DapRegistration_parse_def using after by (simp add: bind_def)
  qed
  have "toJSON lib r =
           Obj [(js ''id'', Str (RegistrationId_toString lib (reg_id r))), (js ''handle'', reg_handle r),
                (js ''did'', reg_did r), (js ''domain'', reg_domain r),
                (js ''signature'', reg_signature r)]"
    by (simp add: toJSON_def)
  with obj str show ?thesis by simp
qed

lemma base32_numeral:
  "base32 (numeral k) n = base32 (pred_numeral k) (n div 32) @ [base32_alphabet ! (n mod 32)]"
proof -
  have "base32 (Suc (pred_numeral k)) n =
      base32 (pred_numeral k) (n div 32) @ [base32_alphabet ! (n mod 32)]"
    by (rule base32.simps)
  then show ?thesis by (simp only: numeral_eq_Suc[symmetric])
qed

lemma base32_alphabet_list:
  "base32_alphabet = [
     0x30, 0x31, 0x32, 0x33, 0x34, 0x35, 0x36, 0x37, 0x38, 0x39, 0x61, 0x62, 0x63, 0x64,
     0x65, 0x66, 0x67, 0x68, 0x6A, 0x6B, 0x6D, 0x6E, 0x70, 0x71, 0x72, 0x73, 0x74,
     0x76, 0x77, 0x78, 0x79, 0x7A]"
  by (simp add: base32_alphabet_def js_def)

lemma example_id:
  "example_typeid (js ''reg'') 1626307200000 12345 = (js ''reg'', 1966084764705172652154711913267212345)"
  by (simp add: example_typeid_def)

lemma example_id_text:
  "example_toString (js ''reg'', 1966084764705172652154711913267212345) = js ''reg_01fakqd1000000000000000c1s''"
  by (simp add: example_toString_def base32_numeral base32_alphabet_list js_def)

lemma example_id_roundtrip:
  "example_fromString (Str (js ''reg_01fakqd1000000000000000c1s'')) =
     Inr (js ''reg'', 1966084764705172652154711913267212345)"
  by (simp add: example_fromString_def example_suffix_def base32_value_def index_in_def
      base32_alphabet_list js_def)

lemma example_sign_any_known:
  "DapRegistration_sign (example_lib k) r d = DapRegistration_sign (example_lib k') r d"
  by (simp add: DapRegistration_sign_def computeDigest_def Crypto_digest_def Crypto_sign_def
      RegistrationId_toString_def example_lib_def)

lemma toJSON_any_known: "toJSON (example_lib k) r = toJSON (example_lib k') r"
  by (simp add: toJSON_def RegistrationId_toString_def example_lib_def)

lemma stringify_registration_not_header:
  "stringify (toJSON lib r) \<noteq> stringify example_header"
  by (simp add: toJSON_def example_header_def quote_def escape_def js_def)

lemma verify_signed:
  assumes "reg_signature r \<noteq> Undefined" and "computeDigest lib r = Inr digest"
    and "Crypto_verify lib (reg_signature r) (Some digest) = Inr signerDid"
    and "reg_did r = Str signerDid"
  shows "DapRegistration_verify lib r = Inr signerDid"
  using assms by (simp add: DapRegistration_verify_def bind_def)

theorem parse_serialize_roundtrip_witness:
  "\<exists>r. DapRegistration_sign (example_lib []) (example_unsigned (js ''did:example:alice''))
          example_alice = Inr r \<and>
       DapRegistration_parse (example_lib [toJSON (example_lib []) r, example_header])
         (toJSON (example_lib []) r) = Inr r \<and>
       DapRegistration_parse (example_lib [toJSON (example_lib []) r, example_header])
         (Str (serialize (example_lib []) r)) = Inr r"
proof -
  let ?base = "example_lib [] :: (example_tid, jsval) library"
  let ?unsigned = "example_unsigned (js ''did:example:alice'')"
  from example_sign_registration[OF example_header_first, of "js ''did:example:alice''"]
  obtain jws where s0:
    "DapRegistration_sign (example_lib [example_header]) ?unsigned example_alice =
       Inr (?unsigned\<lparr>reg_signature := Str jws\<rparr>)"
    by blast
  let ?r = "?unsigned\<lparr>reg_signature := Str jws\<rparr>"
  let ?lib = "example_lib [toJSON ?base ?r, example_header] :: (example_tid, jsval) library"
  have "DapRegistration_sign ?base ?unsigned example_alice =
      DapRegistration_sign (example_lib [example_header]) ?unsigned example_alice"
    by (rule example_sign_any_known)
  with s0 have sign0: "DapRegistration_sign ?base ?unsigned example_alice = Inr ?r" by simp
  have "DapRegistration_sign ?lib ?unsigned example_alice =
      DapRegistration_sign (example_lib [example_header]) ?unsigned example_alice"
    by (rule example_sign_any_known)
  with s0 have sign: "DapRegistration_sign ?lib ?unsigned example_alice = Inr ?r" by simp
  have header: "base64Url_toObject ?lib (object_toBase64Url ?lib example_header) = Inr example_header"
    by (rule example_header_second[OF stringify_registration_not_header])
  from example_sign_registration[OF header, of "js ''did:example:alice''"]
  obtain jws' digest where s':
    "DapRegistration_sign ?lib ?unsigned example_alice = Inr (?unsigned\<lparr>reg_signature := Str jws'\<rparr>)"
    "computeDigest ?lib (?unsigned\<lparr>reg_signature := Str jws'\<rparr>) = Inr digest"
    "Crypto_verify ?lib (Str jws') (Some digest) = Inr (js ''did:example:alice'')"
    by blast
  from s'(1) sign have "?unsigned\<lparr>reg_signature := Str jws'\<rparr> = ?r" by simp
  then have "reg_signature (?unsigned\<lparr>reg_signature := Str jws'\<rparr>) = reg_signature ?r"
    by (rule arg_cong)
  then have "jws' = jws" by simp
  with s'(2,3) have s:
    "computeDigest ?lib ?r = Inr digest"
    "Crypto_verify ?lib (Str jws) (Some digest) = Inr (js ''did:example:alice'')"
    by simp_all
  have fields: "reg_signature ?r = Str jws" "reg_did ?r = Str (js ''did:example:alice'')"
    "value_of (reg_id ?r) = (js ''reg'', 1966084764705172652154711913267212345)"
    by (simp_all add: example_unsigned_def DapRegistration_new_def example_id)
  have 1: "DapRegistration_verify ?lib ?r = Inr (js ''did:example:alice'')"
    by (rule verify_signed[OF _ s(1)]) (simp_all add: fields s(2))
  have 2: "TypeID_fromString ?lib (Str (TypeID_toString ?lib (value_of (reg_id ?r)))) =
      Inr (value_of (reg_id ?r))"
    unfolding fields by (simp add: example_lib_def example_id_text example_id_roundtrip)
  have 3: "TypeID_getType ?lib (value_of (reg_id ?r)) = js ''reg''"
    unfolding fields by (simp add: example_lib_def)
  have same1: "toJSON ?lib ?r = toJSON ?base ?r"
    by (rule toJSON_any_known)
  have same2: "serialize ?lib ?r = serialize ?base ?r"
    unfolding serialize_def same1 by (simp add: example_lib_def)
  note same = same1 same2
  have 4: "JSON_parse ?lib (serialize ?lib ?r) = Inr (toJSON ?lib ?r)"
    unfolding same by (simp add: serialize_def example_lib_def parse_known_first)
  from parse_serialize_roundtrip[OF 1 2 3] 4
  have "DapRegistration_parse ?lib (toJSON ?base ?r) = Inr ?r"
    "DapRegistration_parse ?lib (Str (serialize ?base ?r)) = Inr ?r"
    unfolding same by simp_all
  with sign0 show ?thesis by blast
qed

end
